theory Spec2Isabelle
  imports Complex_Main
begin

section \<open>Floating-point values as the capacity model uses them\<close>

text \<open>
  The capacity model of \<^verbatim>\<open>src/mobile_capacity/capacity.py\<close> computes on numpy arrays
  of dtype float. The features of those values that decide what the functions return are
  modelled by a datatype: the not-a-number value, the two infinities, the two zeros, and
  comparisons that are false whenever an operand is not-a-number. \<open>Fin 0\<close> is the
  zero \<^verbatim>\<open>0.0\<close> and \<open>NZero\<close> is \<^verbatim>\<open>-0.0\<close>; every other finite value is a rational number
  other than zero. Rounding, overflow and underflow are not modelled, so a finite result
  of the model is the exact value that the floating-point result approximates.
\<close>

datatype fl = Fin rat | NZero | PInf | NInf | NaN

text \<open>The zero and the infinity with a given sign bit (\<open>True\<close> is negative).\<close>

fun signed_zero :: "bool \<Rightarrow> fl" where
  "signed_zero True = NZero"
| "signed_zero False = Fin 0"

fun signed_inf :: "bool \<Rightarrow> fl" where
  "signed_inf True = NInf"
| "signed_inf False = PInf"

fun fl_neg :: "fl \<Rightarrow> fl" where
  "fl_neg (Fin x) = (if x = 0 then NZero else Fin (- x))"
| "fl_neg NZero = Fin 0"
| "fl_neg PInf = NInf"
| "fl_neg NInf = PInf"
| "fl_neg NaN = NaN"

text \<open>
  Addition: infinities of opposite sign give not-a-number; a sum of finite values that is
  zero is \<^verbatim>\<open>0.0\<close>, except that \<^verbatim>\<open>-0.0 + -0.0\<close> is \<^verbatim>\<open>-0.0\<close>.
\<close>

fun fl_add :: "fl \<Rightarrow> fl \<Rightarrow> fl" where
  "fl_add NaN _ = NaN"
| "fl_add _ NaN = NaN"
| "fl_add PInf NInf = NaN"
| "fl_add NInf PInf = NaN"
| "fl_add PInf _ = PInf"
| "fl_add _ PInf = PInf"
| "fl_add NInf _ = NInf"
| "fl_add _ NInf = NInf"
| "fl_add NZero NZero = NZero"
| "fl_add NZero (Fin y) = Fin y"
| "fl_add (Fin x) NZero = Fin x"
| "fl_add (Fin x) (Fin y) = Fin (x + y)"

definition fl_sub :: "fl \<Rightarrow> fl \<Rightarrow> fl" where
  "fl_sub a b = fl_add a (fl_neg b)"

text \<open>
  Multiplication: the sign of the product is the exclusive or of the signs, also for a
  product that is zero or infinite; an infinity times a zero is not-a-number.
\<close>

fun fl_mul :: "fl \<Rightarrow> fl \<Rightarrow> fl" where
  "fl_mul NaN _ = NaN"
| "fl_mul _ NaN = NaN"
| "fl_mul PInf PInf = PInf"
| "fl_mul PInf NInf = NInf"
| "fl_mul NInf PInf = NInf"
| "fl_mul NInf NInf = PInf"
| "fl_mul PInf NZero = NaN"
| "fl_mul NInf NZero = NaN"
| "fl_mul NZero PInf = NaN"
| "fl_mul NZero NInf = NaN"
| "fl_mul PInf (Fin y) = (if y = 0 then NaN else signed_inf (y < 0))"
| "fl_mul NInf (Fin y) = (if y = 0 then NaN else signed_inf (0 < y))"
| "fl_mul (Fin x) PInf = (if x = 0 then NaN else signed_inf (x < 0))"
| "fl_mul (Fin x) NInf = (if x = 0 then NaN else signed_inf (0 < x))"
| "fl_mul NZero NZero = Fin 0"
| "fl_mul NZero (Fin y) = signed_zero (0 \<le> y)"
| "fl_mul (Fin x) NZero = signed_zero (0 \<le> x)"
| "fl_mul (Fin x) (Fin y) =
     (if x * y = 0 then signed_zero ((x < 0) \<noteq> (y < 0)) else Fin (x * y))"

text \<open>
  numpy's true division of floats never raises (it warns): a value other than zero divided
  by a zero is an infinity, a finite value divided by an infinity is a zero, each with the
  exclusive or of the signs; zero by zero and infinity by infinity are not-a-number.
\<close>

fun fl_div :: "fl \<Rightarrow> fl \<Rightarrow> fl" where
  "fl_div NaN _ = NaN"
| "fl_div _ NaN = NaN"
| "fl_div PInf PInf = NaN"
| "fl_div PInf NInf = NaN"
| "fl_div NInf PInf = NaN"
| "fl_div NInf NInf = NaN"
| "fl_div PInf NZero = NInf"
| "fl_div NInf NZero = PInf"
| "fl_div PInf (Fin y) = signed_inf (y < 0)"
| "fl_div NInf (Fin y) = signed_inf (0 \<le> y)"
| "fl_div NZero PInf = NZero"
| "fl_div NZero NInf = Fin 0"
| "fl_div (Fin x) PInf = signed_zero (x < 0)"
| "fl_div (Fin x) NInf = signed_zero (0 \<le> x)"
| "fl_div NZero NZero = NaN"
| "fl_div NZero (Fin y) = (if y = 0 then NaN else signed_zero (0 < y))"
| "fl_div (Fin x) NZero = (if x = 0 then NaN else signed_inf (0 < x))"
| "fl_div (Fin x) (Fin y) =
     (if y = 0 then (if x = 0 then NaN else signed_inf (x < 0))
      else if x = 0 then signed_zero (y < 0)
      else Fin (x / y))"

text \<open>Comparisons: false at not-a-number; the two zeros are equal.\<close>

fun fl_le :: "fl \<Rightarrow> fl \<Rightarrow> bool" where
  "fl_le NaN _ = False"
| "fl_le _ NaN = False"
| "fl_le NInf _ = True"
| "fl_le _ PInf = True"
| "fl_le PInf _ = False"
| "fl_le _ NInf = False"
| "fl_le NZero NZero = True"
| "fl_le NZero (Fin y) = (0 \<le> y)"
| "fl_le (Fin x) NZero = (x \<le> 0)"
| "fl_le (Fin x) (Fin y) = (x \<le> y)"

fun fl_lt :: "fl \<Rightarrow> fl \<Rightarrow> bool" where
  "fl_lt NaN _ = False"
| "fl_lt _ NaN = False"
| "fl_lt PInf _ = False"
| "fl_lt _ NInf = False"
| "fl_lt NInf _ = True"
| "fl_lt _ PInf = True"
| "fl_lt NZero NZero = False"
| "fl_lt NZero (Fin y) = (0 < y)"
| "fl_lt (Fin x) NZero = (x < 0)"
| "fl_lt (Fin x) (Fin y) = (x < y)"

definition fl_ge :: "fl \<Rightarrow> fl \<Rightarrow> bool" where
  "fl_ge a b = fl_le b a"

definition fl_gt :: "fl \<Rightarrow> fl \<Rightarrow> bool" where
  "fl_gt a b = fl_lt b a"

section \<open>Errors and array primitives\<close>

text \<open>The exceptions that the modelled code can raise.\<close>

datatype error = ValueError | IndexError | KeyError | ZeroDivisionError

text \<open>
  \<^verbatim>\<open>row.argmax()\<close> of a boolean row: the index of the first \<^verbatim>\<open>True\<close>, and 0 when
  the row holds none. (On a row of length zero numpy raises; the caller below checks that.)
\<close>

definition argmax_bool :: "bool list \<Rightarrow> nat" where
  "argmax_bool row = (if True \<in> set row then length (takeWhile Not row) else 0)"

text \<open>\<^verbatim>\<open>a[mask]\<close>: the elements of \<open>a\<close> at the positions where the mask is true.\<close>

fun select_mask :: "'a list \<Rightarrow> bool list \<Rightarrow> 'a list" where
  "select_mask (x # xs) (m # ms) = (if m then x # select_mask xs ms else select_mask xs ms)"
| "select_mask _ _ = []"

text \<open>
  \<^verbatim>\<open>a[mask] = values\<close>: the positions where the mask is true receive the values, in
  order; the other positions keep what they hold.
\<close>

fun put_mask :: "'a list \<Rightarrow> bool list \<Rightarrow> 'a list \<Rightarrow> 'a list" where
  "put_mask (x # xs) (m # ms) vs =
     (if m then (case vs of [] \<Rightarrow> x # xs | v # vs' \<Rightarrow> v # put_mask xs ms vs')
      else x # put_mask xs ms vs)"
| "put_mask xs _ _ = xs"

text \<open>\<^verbatim>\<open>a[mask] = c\<close> with a scalar \<open>c\<close>.\<close>

fun fill_mask :: "'a list \<Rightarrow> bool list \<Rightarrow> 'a \<Rightarrow> 'a list" where
  "fill_mask (x # xs) (m # ms) c = (if m then c else x) # fill_mask xs ms c"
| "fill_mask xs _ _ = xs"

section \<open>Configuration\<close>

datatype band = L850 | L1800 | L2600

text \<open>
  The attributes of \<^verbatim>\<open>Capacity\<close> that the modelled methods read. The numeric
  parameters are Python numbers (finite, and not \<^verbatim>\<open>-0.0\<close>); the radii are Python ints, as \<^verbatim>\<open>range\<close>
  demands. The two reference tables are data frames with one column of dtype float per
  band; the two columns of a band belong to different frames and may differ in length.
\<close>

record config =
  bw_L850 :: rat
  bw_L1800 :: rat
  bw_L2600 :: rat
  cco :: rat
  dlthtarg :: rat
  rb_num_multiplier :: rat
  max_radius :: int
  min_radius :: int
  radius_step :: int
  bwdistance_km :: "band \<Rightarrow> fl list"
  bwdlachievbr :: "band \<Rightarrow> fl list"

definition bw :: "config \<Rightarrow> rat" where
  "bw c = bw_L850 c + bw_L1800 c + bw_L2600 c"

definition nrb :: "config \<Rightarrow> rat" where
  "nrb c = bw c * rb_num_multiplier c"

text \<open>
  Python's \<^verbatim>\<open>/\<close> on two numbers raises \<^verbatim>\<open>ZeroDivisionError\<close> at a zero divisor and is
  the float division otherwise (so \<^verbatim>\<open>0 / -30\<close> is \<^verbatim>\<open>-0.0\<close>).
\<close>

definition py_div :: "rat \<Rightarrow> rat \<Rightarrow> error + fl" where
  "py_div a b = (if b = 0 then Inl ZeroDivisionError else Inr (fl_div (Fin a) (Fin b)))"

definition avrbpdsch :: "config \<Rightarrow> error + fl" where
  "avrbpdsch c =
     (case py_div (100 - cco c) (nrb c) of
        Inl e \<Rightarrow> Inl e
      | Inr q \<Rightarrow> Inr (fl_mul q (Fin 100)))"

section \<open>Downlink bitrate\<close>

text \<open>
  The body of the loop over the bands in \<^verbatim>\<open>get_dl_bitrate\<close>, for one band: the
  comparison matrix, \<^verbatim>\<open>argmax\<close> along each row (a \<^verbatim>\<open>ValueError\<close> when the table has no
  row), the rows with no breakpoint at or beyond the distance, the indexed read of the
  bitrates (an \<^verbatim>\<open>IndexError\<close> when an index is beyond the bitrate column), and not-a-number
  written where no breakpoint qualifies.
\<close>

definition band_dl_bitrate :: "fl list \<Rightarrow> fl list \<Rightarrow> fl list \<Rightarrow> error + fl list" where
  "band_dl_bitrate distances_array bitrate_array poi_distances =
     (let mask = map (\<lambda>d. map (\<lambda>t. fl_ge t d) distances_array) poi_distances in
      if distances_array = [] then Inl ValueError
      else
        let indices = map argmax_bool mask;
            no_larger_equal = map (\<lambda>row. \<not> (True \<in> set row)) mask in
        if \<exists>i \<in> set indices. length bitrate_array \<le> i then Inl IndexError
        else
          let dl_bitrate = map (\<lambda>i. bitrate_array ! i) indices in
          Inr (fill_mask dl_bitrate no_larger_equal NaN))"

text \<open>\<^verbatim>\<open>self.bw_L850 / self.bw\<close>, and so on: the weights of the three bands.\<close>

definition weights :: "config \<Rightarrow> error + fl list" where
  "weights c =
     (case py_div (bw_L850 c) (bw c) of Inl e \<Rightarrow> Inl e | Inr w0 \<Rightarrow>
       (case py_div (bw_L1800 c) (bw c) of Inl e \<Rightarrow> Inl e | Inr w1 \<Rightarrow>
         (case py_div (bw_L2600 c) (bw c) of Inl e \<Rightarrow> Inl e | Inr w2 \<Rightarrow>
            Inr [w0, w1, w2])))"

text \<open>
  One entry of \<^verbatim>\<open>np.dot(dl_bitrates, weights)\<close>: a row times the weight vector, the
  products added one after the other to an accumulator that starts at \<^verbatim>\<open>0.0\<close>.
\<close>

definition dot :: "fl list \<Rightarrow> fl list \<Rightarrow> fl" where
  "dot row ws = foldl fl_add (Fin 0) (map2 fl_mul row ws)"

definition get_dl_bitrate :: "config \<Rightarrow> fl list \<Rightarrow> error + fl list" where
  "get_dl_bitrate c ds =
     (let poi_distances = map (\<lambda>d. fl_div d (Fin 1000)) ds in
      case weights c of Inl e \<Rightarrow> Inl e | Inr ws \<Rightarrow>
       (case band_dl_bitrate (bwdistance_km c L850) (bwdlachievbr c L850) poi_distances of
          Inl e \<Rightarrow> Inl e | Inr c0 \<Rightarrow>
         (case band_dl_bitrate (bwdistance_km c L1800) (bwdlachievbr c L1800) poi_distances of
            Inl e \<Rightarrow> Inl e | Inr c1 \<Rightarrow>
           (case band_dl_bitrate (bwdistance_km c L2600) (bwdlachievbr c L2600) poi_distances of
              Inl e \<Rightarrow> Inl e | Inr c2 \<Rightarrow>
                Inr (map (\<lambda>k. dot [c0 ! k, c1 ! k, c2 ! k] ws)
                       [0..<length poi_distances])))))"

section \<open>Required resource blocks\<close>

text \<open>
  \<^verbatim>\<open>poiddatareq\<close>: the result array starts as not-a-number everywhere; the body of the
  \<^verbatim>\<open>try\<close> writes both halves of the mask; every exception raised inside is caught, and the
  array is returned as it is at that moment.
\<close>

definition poiddatareq :: "config \<Rightarrow> fl list \<Rightarrow> fl list" where
  "poiddatareq c d =
     (let results = replicate (length d) NaN in
      case get_dl_bitrate c d of Inl e \<Rightarrow> results | Inr dl_bitrate \<Rightarrow>
       (let mask = map (\<lambda>x. fl_le x (Fin (of_int (max_radius c)))) d in
        case avrbpdsch c of Inl e \<Rightarrow> results | Inr av \<Rightarrow>
         (let vals = map (\<lambda>b. fl_div (Fin (dlthtarg c * 1024)) (fl_div b av))
                       (select_mask dl_bitrate mask);
              results1 = put_mask results mask vals
          in fill_mask results1 (map Not mask) PInf)))"

section \<open>Resource-block utilisation, available capacity, sufficiency\<close>

text \<open>
  A numpy binary operation on two flat arrays: arrays of one size are paired; an array of
  size one is stretched to the other's size; any other pair of sizes is refused.
\<close>

definition broadcast2 :: "('a \<Rightarrow> 'b \<Rightarrow> 'c) \<Rightarrow> 'a list \<Rightarrow> 'b list \<Rightarrow> error + 'c list" where
  "broadcast2 f xs ys =
     (if length xs = length ys then Inr (map2 f xs ys)
      else if length xs = 1 then Inr (map (f (hd xs)) ys)
      else if length ys = 1 then Inr (map (\<lambda>x. f x (hd ys)) xs)
      else Inl ValueError)"

text \<open>
  The three methods flatten both arguments to float arrays first (a scalar becomes an array
  of size one); the model takes the flattened arrays.
\<close>

definition upoprbu :: "fl list \<Rightarrow> fl list \<Rightarrow> error + fl list" where
  "upoprbu upopbr brrbpopcd =
     (if length upopbr \<noteq> 1 \<and> length upopbr \<noteq> length brrbpopcd then Inl ValueError
      else broadcast2 fl_div upopbr brrbpopcd)"

definition cellavcap :: "fl list \<Rightarrow> fl list \<Rightarrow> error + fl list" where
  "cellavcap avrb upoprbu_arr =
     (if length avrb \<noteq> 1 \<and> length avrb \<noteq> length upoprbu_arr then Inl ValueError
      else broadcast2 fl_sub avrb upoprbu_arr)"

definition sufcapch :: "fl list \<Rightarrow> fl list \<Rightarrow> error + bool list" where
  "sufcapch cellavcap_arr rbdlthtarg_arr =
     (if length cellavcap_arr \<noteq> 1 \<and> length rbdlthtarg_arr \<noteq> 1
         \<and> length cellavcap_arr \<noteq> length rbdlthtarg_arr
      then Inl ValueError
      else broadcast2 fl_gt cellavcap_arr rbdlthtarg_arr)"

section \<open>Buffers and rings\<close>

text \<open>
  Python's \<^verbatim>\<open>range(start, stop, step)\<close>: a zero step is a \<^verbatim>\<open>ValueError\<close>; otherwise the
  values \<open>start + k * step\<close> that lie before \<open>stop\<close> in the direction of the step.
\<close>

definition py_range :: "int \<Rightarrow> int \<Rightarrow> int \<Rightarrow> error + int list" where
  "py_range start stop step =
     (if step = 0 then Inl ValueError
      else if 0 < step
      then Inr (map (\<lambda>k. start + int k * step)
                  [0..<nat ((stop - start + step - 1) div step)])
      else Inr (map (\<lambda>k. start + int k * step)
                  [0..<nat ((start - stop - step - 1) div (- step))]))"

text \<open>\<^verbatim>\<open>drop_duplicates(subset=key)\<close>: the first row of each key is kept.\<close>

fun drop_duplicates :: "('a \<Rightarrow> 'k) \<Rightarrow> 'a list \<Rightarrow> 'a list" where
  "drop_duplicates key [] = []"
| "drop_duplicates key (x # xs) = x # drop_duplicates key (filter (\<lambda>y. key y \<noteq> key x) xs)"

text \<open>
  A ring record in long format: the site, the radius label \<^verbatim>\<open>buffer\<close> and the
  representative \<^verbatim>\<open>radius\<close>. The geometry of the ring is not part of the model.
\<close>

record ring =
  ring_ict_id :: nat
  buffer :: int
  radius :: rat

text \<open>
  The buffer and ring stage of \<^verbatim>\<open>calculate_buffer_areas\<close>, on the identifiers of the cell
  sites. The loop over \<^verbatim>\<open>range(min_radius, max_radius + 1, radius_step)\<close> adds the columns
  \<^verbatim>\<open>buffer_r\<close>, \<^verbatim>\<open>ring_r\<close>, \<^verbatim>\<open>clring_r\<close> and \<^verbatim>\<open>clbuffer_r\<close> for each radius \<open>r\<close> it
  visits. Selecting the column \<^verbatim>\<open>clbuffer_{max_radius}\<close> afterwards is a \<^verbatim>\<open>KeyError\<close>
  when the loop did not visit \<^verbatim>\<open>max_radius\<close>. The \<^verbatim>\<open>clring\<close> columns are melted to one
  record per column and site; the label is read back from the column name with the pattern
  \<^verbatim>\<open>(\d+)\<close>, the first run of digits, which is the absolute value of the radius.
  The geometric operations (Voronoi cells, buffers, differences, intersections) are not
  part of the model and are taken to return.
\<close>

definition generate_rings :: "config \<Rightarrow> nat list \<Rightarrow> error + ring list" where
  "generate_rings c cellsites =
     (let sites = drop_duplicates id cellsites in
      case py_range (min_radius c) (max_radius c + 1) (radius_step c) of
        Inl e \<Rightarrow> Inl e
      | Inr radii \<Rightarrow>
          if max_radius c \<notin> set radii then Inl KeyError
          else Inr (concat (map (\<lambda>r. map (\<lambda>s.
                 \<lparr>ring_ict_id = s, buffer = \<bar>r\<bar>,
                  radius = of_int \<bar>r\<bar> - of_int (radius_step c) / 2\<rparr>) sites) radii)))"

section \<open>Visibility\<close>

record poi =
  poi_id :: nat
  lat :: rat
  lon :: rat

text \<open>A row of the precomputed visibility table.\<close>

record visibility_pair =
  vp_poi_id :: nat
  vp_ict_id :: nat
  vp_order :: int
  vp_ground_distance :: fl
  vp_is_visible :: bool

text \<open>
  A row of \<^verbatim>\<open>pois_within_cellsites\<close> after the visibility stage. A missing site
  identifier and a missing visibility flag are \<open>None\<close>.
\<close>

record poi_row =
  row_poi :: poi
  ict_id :: "nat option"
  ground_distance :: fl
  is_visible :: "bool option"

text \<open>
  \<^verbatim>\<open>gpd.sjoin(pois_gdf, buffers_gdf, how='left', predicate='within')\<close>. The geometric test is
  a parameter: \<open>containing p\<close> lists the sites whose maximal clipped buffer contains
  the point \<open>p\<close>. A point inside no buffer keeps one row, with no site.
\<close>

definition sjoin_left :: "(poi \<Rightarrow> nat list) \<Rightarrow> poi list \<Rightarrow> (poi \<times> nat option) list" where
  "sjoin_left containing pois =
     concat (map (\<lambda>p. case containing p of
                         [] \<Rightarrow> [(p, None)]
                       | s # ss \<Rightarrow> map (\<lambda>t. (p, Some t)) (s # ss)) pois)"

text \<open>
  \<^verbatim>\<open>_get_visibility_status\<close>. The visibility analyzer is a parameter \<open>oracle\<close>; the list
  \<open>calls\<close> records every invocation of it, in order.
\<close>

definition get_visibility_status ::
  "(nat \<Rightarrow> nat \<Rightarrow> fl \<times> bool) \<Rightarrow> poi \<times> nat option \<Rightarrow> (nat \<times> nat) list
     \<Rightarrow> (fl \<times> bool option) \<times> (nat \<times> nat) list" where
  "get_visibility_status oracle row calls =
     (case snd row of
        None \<Rightarrow> ((NaN, None), calls)
      | Some s \<Rightarrow>
          (case oracle (poi_id (fst row)) s of
             (d, v) \<Rightarrow> ((d, Some v), calls @ [(poi_id (fst row), s)])))"

text \<open>The row-wise \<^verbatim>\<open>apply\<close> of \<^verbatim>\<open>_get_visibility_status\<close>.\<close>

fun apply_visibility ::
  "(nat \<Rightarrow> nat \<Rightarrow> fl \<times> bool) \<Rightarrow> (poi \<times> nat option) list \<Rightarrow> (nat \<times> nat) list
     \<Rightarrow> poi_row list \<times> (nat \<times> nat) list" where
  "apply_visibility oracle [] calls = ([], calls)"
| "apply_visibility oracle (row # rows) calls =
     (case get_visibility_status oracle row calls of
        ((d, v), calls1) \<Rightarrow>
          (case apply_visibility oracle rows calls1 of
             (out, calls2) \<Rightarrow>
               (\<lparr>row_poi = fst row, ict_id = snd row, ground_distance = d, is_visible = v\<rparr>
                  # out, calls2)))"

text \<open>
  \<^verbatim>\<open>pois.merge(visibility_filtered, on="poi_id", how="left")\<close>: every point, in order, with
  each row of the table that has its identifier; a point with no such row keeps one row
  with the table's columns missing.
\<close>

definition merge_left :: "poi list \<Rightarrow> visibility_pair list \<Rightarrow> poi_row list" where
  "merge_left pois tbl =
     concat (map (\<lambda>p. case filter (\<lambda>v. vp_poi_id v = poi_id p) tbl of
                         [] \<Rightarrow> [\<lparr>row_poi = p, ict_id = None, ground_distance = NaN,
                                 is_visible = None\<rparr>]
                       | m # ms \<Rightarrow> map (\<lambda>v. \<lparr>row_poi = p, ict_id = Some (vp_ict_id v),
                                 ground_distance = vp_ground_distance v,
                                 is_visible = Some (vp_is_visible v)\<rparr>) (m # ms)) pois)"

text \<open>
  The visibility stage. Without a table the points are matched to sites and the oracle is
  asked row by row; unpacking the result of the \<^verbatim>\<open>apply\<close> into the two columns fails with
  a \<^verbatim>\<open>ValueError\<close> when there is no row. With a table, its rows of order 1 are merged to
  the points.
\<close>

definition visibility_analysis ::
  "(poi \<Rightarrow> nat list) \<Rightarrow> (nat \<Rightarrow> nat \<Rightarrow> fl \<times> bool) \<Rightarrow> visibility_pair list option
     \<Rightarrow> poi list \<Rightarrow> (nat \<times> nat) list \<Rightarrow> error + poi_row list \<times> (nat \<times> nat) list" where
  "visibility_analysis containing oracle visibility pois calls =
     (case visibility of
        None \<Rightarrow>
          (let rows = drop_duplicates (\<lambda>row. poi_id (fst row)) (sjoin_left containing pois) in
           if rows = [] then Inl ValueError
           else Inr (apply_visibility oracle rows calls))
      | Some tbl \<Rightarrow>
          (let visibility_filtered = filter (\<lambda>v. vp_order v = 1) tbl in
           Inr (merge_left pois visibility_filtered, calls)))"

section \<open>Points and cell sites\<close>

text \<open>A row of \<^verbatim>\<open>cellsites_rbu\<close>: the summed utilisation of a site and its capacity.\<close>

record site_capacity =
  rbu_upoprbu :: fl
  rbu_cellavcap :: fl

text \<open>A row of the annotated point table that is returned.\<close>

record poi_result = poi_row +
  rbdlthtarg :: fl
  col_upoprbu :: fl
  col_cellavcap :: fl
  col_sufcapch :: bool

definition fillna0 :: "fl \<Rightarrow> fl" where
  "fillna0 x = (if x = NaN then Fin 0 else x)"

text \<open>
  The point-level computation and the merge with the sites. The table \<^verbatim>\<open>cellsites_rbu\<close>,
  which the source aggregates from the population inside the ring geometries, is a
  parameter: a map from site identifier to its row (the ring-level and site-level
  computations are not part of the model and are taken to return). The left merge on
  \<^verbatim>\<open>ict_id\<close> leaves the site columns missing for a point whose identifier is missing
  or has no row; \<^verbatim>\<open>fillna(0)\<close> then sets a missing capacity to zero.
\<close>

definition merge_poi_and_cell_site ::
  "config \<Rightarrow> (nat \<rightharpoonup> site_capacity) \<Rightarrow> poi_row list \<Rightarrow> error + poi_result list" where
  "merge_poi_and_cell_site c cellsites_rbu rows =
     (let rb = poiddatareq c (map ground_distance rows);
          site = (\<lambda>r. case ict_id r of None \<Rightarrow> None | Some s \<Rightarrow> cellsites_rbu s);
          up = map (\<lambda>r. case site r of None \<Rightarrow> NaN | Some sc \<Rightarrow> rbu_upoprbu sc) rows;
          cap = map (\<lambda>r. fillna0 (case site r of None \<Rightarrow> NaN
                                  | Some sc \<Rightarrow> rbu_cellavcap sc)) rows
      in case sufcapch cap rb of
           Inl e \<Rightarrow> Inl e
         | Inr suf \<Rightarrow>
             Inr (map (\<lambda>k. \<lparr>row_poi = row_poi (rows ! k), ict_id = ict_id (rows ! k),
                            ground_distance = ground_distance (rows ! k),
                            is_visible = is_visible (rows ! k),
                            rbdlthtarg = rb ! k, col_upoprbu = up ! k,
                            col_cellavcap = cap ! k, col_sufcapch = suf ! k\<rparr>)
                    [0..<length rows]))"

text \<open>
  \<^verbatim>\<open>calculate_buffer_areas\<close>: rings, visibility, points. It returns the ring records, the
  annotated points and the record of oracle invocations.
\<close>

definition calculate_buffer_areas ::
  "config \<Rightarrow> nat list \<Rightarrow> poi list \<Rightarrow> visibility_pair list option
     \<Rightarrow> (poi \<Rightarrow> nat list) \<Rightarrow> (nat \<Rightarrow> nat \<Rightarrow> fl \<times> bool) \<Rightarrow> (nat \<rightharpoonup> site_capacity)
     \<Rightarrow> (nat \<times> nat) list
     \<Rightarrow> error + ring list \<times> poi_result list \<times> (nat \<times> nat) list" where
  "calculate_buffer_areas c cellsites pois visibility containing oracle cellsites_rbu calls =
     (case generate_rings c cellsites of
        Inl e \<Rightarrow> Inl e
      | Inr rings \<Rightarrow>
         (case visibility_analysis containing oracle visibility pois calls of
            Inl e \<Rightarrow> Inl e
          | Inr (rows, calls1) \<Rightarrow>
             (case merge_poi_and_cell_site c cellsites_rbu rows of
                Inl e \<Rightarrow> Inl e
              | Inr out \<Rightarrow> Inr (rings, out, calls1))))"

section \<open>The scenario of the specification\<close>

text \<open>
  Three bands of 10 MHz, 10 % control-channel overhead, multiplier 5, target 5 Mbps, and
  the three breakpoint tables; the radii are left open.
\<close>

definition scenario :: "int \<Rightarrow> int \<Rightarrow> int \<Rightarrow> config" where
  "scenario lo hi step =
     \<lparr>bw_L850 = 10, bw_L1800 = 10, bw_L2600 = 10, cco = 10, dlthtarg = 5,
      rb_num_multiplier = 5, max_radius = hi, min_radius = lo, radius_step = step,
      bwdistance_km = (\<lambda>b. case b of L850 \<Rightarrow> [Fin 2, Fin 5, Fin 10]
                                | L1800 \<Rightarrow> [Fin 1, Fin 3, Fin 6]
                                | L2600 \<Rightarrow> [Fin (1 / 2), Fin 1, Fin 2]),
      bwdlachievbr = (\<lambda>b. case b of L850 \<Rightarrow> [Fin 20000, Fin 10000, Fin 5000]
                                | L1800 \<Rightarrow> [Fin 15000, Fin 8000, Fin 3000]
                                | L2600 \<Rightarrow> [Fin 10000, Fin 5000, Fin 1000])\<rparr>"

section \<open>The functions of the specification\<close>

text \<open>
  \<open>bitrateAtDistance\<close>, in the words of the specification: the bitrate of the first entry
  of a band's table whose breakpoint is at or beyond the distance, and not-a-number when
  there is none.
\<close>

fun bitrateAtDistance :: "fl list \<Rightarrow> fl list \<Rightarrow> fl \<Rightarrow> fl" where
  "bitrateAtDistance (t # ts) (b # bs) d =
     (if fl_ge t d then b else bitrateAtDistance ts bs d)"
| "bitrateAtDistance _ _ d = NaN"

text \<open>
  \<open>downlinkBitrate\<close> for one distance in metres: the sum over the three bands of the
  band's bitrate at that distance times the band's share of the bandwidth, in the float
  arithmetic of the source (the sum starts at \<^verbatim>\<open>0.0\<close>).
\<close>

definition downlinkBitrate :: "config \<Rightarrow> fl \<Rightarrow> fl" where
  "downlinkBitrate c d =
     (let km = fl_div d (Fin 1000) in
      fl_add
        (fl_add
           (fl_add (Fin 0)
              (fl_mul (bitrateAtDistance (bwdistance_km c L850) (bwdlachievbr c L850) km)
                      (fl_div (Fin (bw_L850 c)) (Fin (bw c)))))
           (fl_mul (bitrateAtDistance (bwdistance_km c L1800) (bwdlachievbr c L1800) km)
                   (fl_div (Fin (bw_L1800 c)) (Fin (bw c)))))
        (fl_mul (bitrateAtDistance (bwdistance_km c L2600) (bwdlachievbr c L2600) km)
                (fl_div (Fin (bw_L2600 c)) (Fin (bw c)))))"

text \<open>
  The configurations on which the lookup raises nothing: a total bandwidth other than zero,
  and for each band a table with at least one breakpoint and a bitrate for every breakpoint.
\<close>

definition band_ok :: "config \<Rightarrow> band \<Rightarrow> bool" where
  "band_ok c b = (bwdistance_km c b \<noteq> []
                   \<and> length (bwdistance_km c b) \<le> length (bwdlachievbr c b))"

definition lookup_ok :: "config \<Rightarrow> bool" where
  "lookup_ok c = (bw c \<noteq> 0 \<and> band_ok c L850 \<and> band_ok c L1800 \<and> band_ok c L2600)"

text \<open>
  Tables as the monotonicity property reads them: breakpoints that ascend, bitrates that do
  not increase, both free of not-a-number; for the weighted sum the bitrates are finite
  numbers and no band has a negative share of the bandwidth. A distance (in metres) is
  within the range of a band when it is at most the band's last breakpoint.
\<close>

fun finite_fl :: "fl \<Rightarrow> bool" where
  "finite_fl (Fin x) = True"
| "finite_fl NZero = True"
| "finite_fl _ = False"

text \<open>The number that a finite value stands for (both zeros stand for 0).\<close>

fun fin_val :: "fl \<Rightarrow> rat" where
  "fin_val (Fin x) = x"
| "fin_val _ = 0"

definition ascending :: "fl list \<Rightarrow> bool" where
  "ascending ts = (sorted_wrt fl_le ts \<and> NaN \<notin> set ts)"

definition non_increasing :: "fl list \<Rightarrow> bool" where
  "non_increasing bs = (sorted_wrt fl_ge bs \<and> NaN \<notin> set bs)"

definition band_monotone :: "config \<Rightarrow> band \<Rightarrow> bool" where
  "band_monotone c b = (ascending (bwdistance_km c b) \<and> non_increasing (bwdlachievbr c b)
                          \<and> list_all finite_fl (bwdlachievbr c b))"

definition within_range :: "config \<Rightarrow> band \<Rightarrow> fl \<Rightarrow> bool" where
  "within_range c b d = fl_le (fl_div d (Fin 1000)) (last (bwdistance_km c b))"

definition weights_nonneg :: "config \<Rightarrow> bool" where
  "weights_nonneg c = (0 \<le> bw_L850 c / bw c \<and> 0 \<le> bw_L1800 c / bw c \<and> 0 \<le> bw_L2600 c / bw c)"

text \<open>
  The invocations of the oracle that a list of rows accounts for: one for every row that has
  a site, in the order of the rows.
\<close>

definition oracle_calls_of :: "'a poi_row_scheme list \<Rightarrow> (nat \<times> nat) list" where
  "oracle_calls_of rows =
     concat (map (\<lambda>r. case ict_id r of None \<Rightarrow> []
                        | Some s \<Rightarrow> [(poi_id (row_poi r), s)]) rows)"

text \<open>
  A point is left without a site by the visibility stage when, in the live mode, no point
  of its identifier lies in a buffer of maximal radius, and, with a precomputed table, when
  the table has no pair of order 1 for its identifier.
\<close>

definition unassigned ::
  "visibility_pair list option \<Rightarrow> (poi \<Rightarrow> nat list) \<Rightarrow> poi list \<Rightarrow> poi \<Rightarrow> bool" where
  "unassigned visibility containing pois p =
     (case visibility of
        None \<Rightarrow> list_all (\<lambda>q. poi_id q = poi_id p \<longrightarrow> containing q = []) pois
      | Some tbl \<Rightarrow> \<not> list_ex (\<lambda>v. vp_order v = 1 \<and> vp_poi_id v = poi_id p) tbl)"

section \<open>A small run of the pipeline\<close>

text \<open>
  Three points and two sites, for the scenario with radii 500, 1000, 1500 and 2000 m. By the
  geometry, point 1 lies in the buffer of site 7, point 2 in no buffer and point 3 in the
  buffer of site 8. The precomputed table has a pair of order 1 for the points 1 and 3.
  \<open>demo_out_live\<close> and \<open>demo_out_pre\<close> are the annotated points that the two modes
  return.
\<close>

definition demo_pois :: "poi list" where
  "demo_pois = [\<lparr>poi_id = 1, lat = 10, lon = 20\<rparr>, \<lparr>poi_id = 2, lat = 11, lon = 21\<rparr>,
                \<lparr>poi_id = 3, lat = 12, lon = 22\<rparr>]"

definition demo_containing :: "poi \<Rightarrow> nat list" where
  "demo_containing p = (if poi_id p = 1 then [7] else if poi_id p = 2 then [] else [8])"

definition demo_oracle :: "nat \<Rightarrow> nat \<Rightarrow> fl \<times> bool" where
  "demo_oracle p s = (if p = 1 then (Fin 1500, True) else (Fin 2500, False))"

definition demo_visibility :: "visibility_pair list" where
  "demo_visibility =
     [\<lparr>vp_poi_id = 1, vp_ict_id = 7, vp_order = 1, vp_ground_distance = Fin 1500,
       vp_is_visible = True\<rparr>,
      \<lparr>vp_poi_id = 1, vp_ict_id = 8, vp_order = 2, vp_ground_distance = Fin 1900,
       vp_is_visible = True\<rparr>,
      \<lparr>vp_poi_id = 3, vp_ict_id = 9, vp_order = 1, vp_ground_distance = Fin 400,
       vp_is_visible = False\<rparr>]"

definition demo_rbu :: "nat \<rightharpoonup> site_capacity" where
  "demo_rbu = [7 \<mapsto> \<lparr>rbu_upoprbu = Fin 10, rbu_cellavcap = Fin 50\<rparr>,
               8 \<mapsto> \<lparr>rbu_upoprbu = Fin 70, rbu_cellavcap = Fin (- 10)\<rparr>]"


definition demo_out_live :: "poi_result list" where
  "demo_out_live =
     [\<lparr>row_poi = \<lparr>poi_id = 1, lat = 10, lon = 20\<rparr>, ict_id = Some 7,
        ground_distance = Fin 1500, is_visible = Some True,
        rbdlthtarg = Fin (4608 / 145), col_upoprbu = Fin 10,
        col_cellavcap = Fin 50, col_sufcapch = True\<rparr>,
      \<lparr>row_poi = \<lparr>poi_id = 2, lat = 11, lon = 21\<rparr>, ict_id = None,
        ground_distance = NaN, is_visible = None, rbdlthtarg = PInf,
        col_upoprbu = NaN, col_cellavcap = Fin 0, col_sufcapch = False\<rparr>,
      \<lparr>row_poi = \<lparr>poi_id = 3, lat = 12, lon = 22\<rparr>, ict_id = Some 8,
        ground_distance = Fin 2500, is_visible = Some False,
        rbdlthtarg = PInf, col_upoprbu = Fin 70,
        col_cellavcap = Fin (- 10), col_sufcapch = False\<rparr>]"

definition demo_out_pre :: "poi_result list" where
  "demo_out_pre =
     [\<lparr>row_poi = \<lparr>poi_id = 1, lat = 10, lon = 20\<rparr>, ict_id = Some 7,
        ground_distance = Fin 1500, is_visible = Some True,
        rbdlthtarg = Fin (4608 / 145), col_upoprbu = Fin 10,
        col_cellavcap = Fin 50, col_sufcapch = True\<rparr>,
      \<lparr>row_poi = \<lparr>poi_id = 2, lat = 11, lon = 21\<rparr>, ict_id = None,
        ground_distance = NaN, is_visible = None, rbdlthtarg = PInf,
        col_upoprbu = NaN, col_cellavcap = Fin 0, col_sufcapch = False\<rparr>,
      \<lparr>row_poi = \<lparr>poi_id = 3, lat = 12, lon = 22\<rparr>, ict_id = Some 9,
        ground_distance = Fin 400, is_visible = Some False,
        rbdlthtarg = Fin (512 / 25), col_upoprbu = NaN,
        col_cellavcap = Fin 0, col_sufcapch = False\<rparr>]"

section \<open>Arrays, masks and the lookup\<close>

lemma finite_signed_zero [simp]: "finite_fl (signed_zero n)" "fin_val (signed_zero n) = 0"
  by (cases n; simp)+

lemma finite_fl_add:
  "finite_fl a \<Longrightarrow> finite_fl b \<Longrightarrow>
     finite_fl (fl_add a b) \<and> fin_val (fl_add a b) = fin_val a + fin_val b"
  by (cases a; cases b) simp_all

lemma finite_fl_mul:
  "finite_fl a \<Longrightarrow> finite_fl b \<Longrightarrow>
     finite_fl (fl_mul a b) \<and> fin_val (fl_mul a b) = fin_val a * fin_val b"
  by (cases a; cases b) simp_all

lemma finite_fl_quotient:
  "b \<noteq> 0 \<Longrightarrow> finite_fl (fl_div (Fin a) (Fin b)) \<and> fin_val (fl_div (Fin a) (Fin b)) = a / b"
  by (cases "b < 0") simp_all

lemma fl_ge_finite: "finite_fl a \<Longrightarrow> finite_fl b \<Longrightarrow> fl_ge a b = (fin_val b \<le> fin_val a)"
  by (cases a; cases b) (simp_all add: fl_ge_def)

lemma fill_mask_map: "fill_mask (map f xs) (map g xs) c = map (\<lambda>x. if g x then c else f x) xs"
  by (induction xs) simp_all

lemma argmax_bool_Cons:
  "argmax_bool (m # ms) = (if m then 0 else if True \<in> set ms then Suc (argmax_bool ms) else 0)"
  by (simp add: argmax_bool_def)

lemma argmax_bitrate:
  "argmax_bool (map (\<lambda>t. fl_ge t d) ts) < length bs \<Longrightarrow>
   (if \<not> (True \<in> set (map (\<lambda>t. fl_ge t d) ts)) then NaN
    else bs ! argmax_bool (map (\<lambda>t. fl_ge t d) ts)) = bitrateAtDistance ts bs d"
proof (induction ts arbitrary: bs)
  case Nil
  then show ?case by simp
next
  case (Cons t ts)
  then obtain b bs' where bs: "bs = b # bs'" by (cases bs) auto
  show ?case
  proof (cases "fl_ge t d")
    case True
    then show ?thesis by (simp add: bs argmax_bool_Cons)
  next
    case False
    show ?thesis
    proof (cases "True \<in> set (map (\<lambda>t. fl_ge t d) ts)")
      case True
      with False Cons.prems have "argmax_bool (map (\<lambda>t. fl_ge t d) ts) < length bs'"
        by (simp add: bs argmax_bool_Cons)
      from Cons.IH [OF this] True
      have "bs' ! argmax_bool (map (\<lambda>t. fl_ge t d) ts) = bitrateAtDistance ts bs' d"
        by (auto split: if_splits)
      with True False show ?thesis
        by (simp add: bs argmax_bool_Cons)
    next
      case nt: False
      have "bitrateAtDistance ts bs' d = NaN"
        using nt by (induction ts bs' d rule: bitrateAtDistance.induct) auto
      with nt False show ?thesis by (simp add: bs)
    qed
  qed
qed

lemma band_dl_bitrate_unfold:
  "band_dl_bitrate ts bs ds =
     (if ts = [] then Inl ValueError
      else if \<exists>d \<in> set ds. length bs \<le> argmax_bool (map (\<lambda>t. fl_ge t d) ts) then Inl IndexError
      else Inr (map (\<lambda>d. if \<not> (True \<in> set (map (\<lambda>t. fl_ge t d) ts)) then NaN
                      else bs ! argmax_bool (map (\<lambda>t. fl_ge t d) ts)) ds))"
  unfolding band_dl_bitrate_def Let_def map_map fill_mask_map o_def
  by (simp add: o_def)

lemma band_dl_bitrate_Inr:
  assumes "band_dl_bitrate ts bs ds = Inr r"
  shows "r = map (bitrateAtDistance ts bs) ds"
proof -
  from assms have idx: "\<forall>d \<in> set ds. argmax_bool (map (\<lambda>t. fl_ge t d) ts) < length bs"
    and r: "r = map (\<lambda>d. if \<not> (True \<in> set (map (\<lambda>t. fl_ge t d) ts)) then NaN
                      else bs ! argmax_bool (map (\<lambda>t. fl_ge t d) ts)) ds"
    unfolding band_dl_bitrate_unfold by (simp_all add: not_le split: if_splits)
  have "map (\<lambda>d. if \<not> (True \<in> set (map (\<lambda>t. fl_ge t d) ts)) then NaN
                      else bs ! argmax_bool (map (\<lambda>t. fl_ge t d) ts)) ds
        = map (bitrateAtDistance ts bs) ds"
  proof (rule map_cong [OF refl])
    fix d assume "d \<in> set ds"
    with idx have "argmax_bool (map (\<lambda>t. fl_ge t d) ts) < length bs" by blast
    then show
      "(if \<not> (True \<in> set (map (\<lambda>t. fl_ge t d) ts)) then NaN
        else bs ! argmax_bool (map (\<lambda>t. fl_ge t d) ts)) = bitrateAtDistance ts bs d"
      by (rule argmax_bitrate)
  qed
  with r show ?thesis by simp
qed

lemma argmax_bool_less: "row \<noteq> [] \<Longrightarrow> argmax_bool row < length row"
proof (induction row)
  case Nil
  then show ?case by simp
next
  case (Cons m ms)
  show ?case
  proof (cases "True \<in> set ms")
    case True
    then have "ms \<noteq> []" by auto
    with Cons.IH show ?thesis by (simp add: argmax_bool_Cons)
  next
    case False
    then show ?thesis by (simp add: argmax_bool_Cons)
  qed
qed

lemma band_dl_bitrate_total:
  assumes "ts \<noteq> []" and "length ts \<le> length bs"
  shows "band_dl_bitrate ts bs ds = Inr (map (bitrateAtDistance ts bs) ds)"
proof -
  have "\<forall>d \<in> set ds. argmax_bool (map (\<lambda>t. fl_ge t d) ts) < length bs"
  proof
    fix d
    have "argmax_bool (map (\<lambda>t. fl_ge t d) ts) < length (map (\<lambda>t. fl_ge t d) ts)"
      using assms(1) by (intro argmax_bool_less) simp
    with assms(2) show "argmax_bool (map (\<lambda>t. fl_ge t d) ts) < length bs" by simp
  qed
  then have "\<exists>r. band_dl_bitrate ts bs ds = Inr r"
    unfolding band_dl_bitrate_unfold using assms(1) by (simp add: not_le)
  then obtain r where "band_dl_bitrate ts bs ds = Inr r" ..
  with band_dl_bitrate_Inr [OF this] show ?thesis by simp
qed

lemma weights_Inr:
  "weights c = Inr ws \<Longrightarrow>
     ws = [fl_div (Fin (bw_L850 c)) (Fin (bw c)), fl_div (Fin (bw_L1800 c)) (Fin (bw c)),
           fl_div (Fin (bw_L2600 c)) (Fin (bw c))]"
  by (auto simp: weights_def py_div_def split: if_splits)

lemma weights_total:
  "bw c \<noteq> 0 \<Longrightarrow>
     weights c = Inr [fl_div (Fin (bw_L850 c)) (Fin (bw c)),
                      fl_div (Fin (bw_L1800 c)) (Fin (bw c)),
                      fl_div (Fin (bw_L2600 c)) (Fin (bw c))]"
  by (simp add: weights_def py_div_def)

lemma dot3:
  "dot [a0, a1, a2] [w0, w1, w2]
     = fl_add (fl_add (fl_add (Fin 0) (fl_mul a0 w0)) (fl_mul a1 w1)) (fl_mul a2 w2)"
  by (simp add: dot_def)

lemma map_upt_nth3:
  "map (\<lambda>k. f (map g0 xs ! k) (map g1 xs ! k) (map g2 xs ! k)) [0..<length xs]
     = map (\<lambda>x. f (g0 x) (g1 x) (g2 x)) xs"
  by (rule nth_equalityI) simp_all

lemma get_dl_bitrate_Inr:
  assumes "get_dl_bitrate c ds = Inr r"
  shows "r = map (downlinkBitrate c) ds"
proof -
  let ?km = "map (\<lambda>d. fl_div d (Fin 1000)) ds"
  from assms obtain ws c0 c1 c2 where w: "weights c = Inr ws"
    and c0: "band_dl_bitrate (bwdistance_km c L850) (bwdlachievbr c L850) ?km = Inr c0"
    and c1: "band_dl_bitrate (bwdistance_km c L1800) (bwdlachievbr c L1800) ?km = Inr c1"
    and c2: "band_dl_bitrate (bwdistance_km c L2600) (bwdlachievbr c L2600) ?km = Inr c2"
    and r: "r = map (\<lambda>k. dot [c0 ! k, c1 ! k, c2 ! k] ws) [0..<length ?km]"
    by (auto simp: get_dl_bitrate_def Let_def split: sum.splits)
  note ws = weights_Inr [OF w]
  note e0 = band_dl_bitrate_Inr [OF c0] and e1 = band_dl_bitrate_Inr [OF c1]
    and e2 = band_dl_bitrate_Inr [OF c2]
  let ?w0 = "fl_div (Fin (bw_L850 c)) (Fin (bw c))"
  let ?w1 = "fl_div (Fin (bw_L1800 c)) (Fin (bw c))"
  let ?w2 = "fl_div (Fin (bw_L2600 c)) (Fin (bw c))"
  let ?F = "\<lambda>a0 a1 a2. fl_add (fl_add (fl_add (Fin 0) (fl_mul a0 ?w0)) (fl_mul a1 ?w1))
              (fl_mul a2 ?w2)"
  have "r = map (\<lambda>k. ?F
            (map (\<lambda>d. bitrateAtDistance (bwdistance_km c L850) (bwdlachievbr c L850)
                        (fl_div d (Fin 1000))) ds ! k)
            (map (\<lambda>d. bitrateAtDistance (bwdistance_km c L1800) (bwdlachievbr c L1800)
                        (fl_div d (Fin 1000))) ds ! k)
            (map (\<lambda>d. bitrateAtDistance (bwdistance_km c L2600) (bwdlachievbr c L2600)
                        (fl_div d (Fin 1000))) ds ! k))
          [0..<length ds]"
    unfolding r ws e0 e1 e2 dot3 map_map o_def length_map ..
  also have "\<dots> = map (downlinkBitrate c) ds"
    unfolding downlinkBitrate_def Let_def by (rule map_upt_nth3 [of ?F])
  finally show ?thesis .
qed

lemma get_dl_bitrate_total:
  assumes "lookup_ok c"
  shows "get_dl_bitrate c ds = Inr (map (downlinkBitrate c) ds)"
proof -
  let ?km = "map (\<lambda>d. fl_div d (Fin 1000)) ds"
  from assms have b: "bw c \<noteq> 0"
    and k0: "band_ok c L850" and k1: "band_ok c L1800" and k2: "band_ok c L2600"
    by (simp_all add: lookup_ok_def)
  have "\<exists>r. get_dl_bitrate c ds = Inr r"
    unfolding get_dl_bitrate_def Let_def
    using weights_total [OF b]
      band_dl_bitrate_total [of "bwdistance_km c L850" "bwdlachievbr c L850" ?km]
      band_dl_bitrate_total [of "bwdistance_km c L1800" "bwdlachievbr c L1800" ?km]
      band_dl_bitrate_total [of "bwdistance_km c L2600" "bwdlachievbr c L2600" ?km]
      k0 k1 k2
    by (simp add: band_ok_def)
  then obtain r where "get_dl_bitrate c ds = Inr r" ..
  with get_dl_bitrate_Inr [OF this] show ?thesis by simp
qed

lemma mask_assign:
  "fill_mask (put_mask (replicate (length ds) a) (map p ds)
               (map f (select_mask (map g ds) (map p ds))))
     (map Not (map p ds)) c
   = map (\<lambda>d. if p d then f (g d) else c) ds"
  by (induction ds) simp_all

lemma avrbpdsch_total: "nrb c \<noteq> 0 \<Longrightarrow> \<exists>av. avrbpdsch c = Inr av"
  by (simp add: avrbpdsch_def py_div_def)

lemma avrbpdsch_Inr: "avrbpdsch c = Inr av \<Longrightarrow> nrb c \<noteq> 0"
  by (auto simp: avrbpdsch_def py_div_def split: if_splits)

lemma poiddatareq_ok:
  assumes "lookup_ok c" and "avrbpdsch c = Inr av"
  shows "poiddatareq c d =
     map (\<lambda>x. if fl_le x (Fin (of_int (max_radius c)))
               then fl_div (Fin (dlthtarg c * 1024)) (fl_div (downlinkBitrate c x) av)
               else PInf) d"
  unfolding poiddatareq_def Let_def get_dl_bitrate_total [OF assms(1)] assms(2) sum.case
  by (rule mask_assign)

lemma length_put_mask [simp]: "length (put_mask xs ms vs) = length xs"
  by (induction xs ms vs rule: put_mask.induct) (auto split: list.splits)

lemma length_fill_mask [simp]: "length (fill_mask xs ms c) = length xs"
  by (induction xs ms c rule: fill_mask.induct) auto

lemma length_poiddatareq: "length (poiddatareq c d) = length d"
  by (simp add: poiddatareq_def Let_def split: sum.splits)

lemma fl_add_NaN_right [simp]: "fl_add x NaN = NaN"
  by (cases x) simp_all

lemma fl_mul_NaN_right [simp]: "fl_mul x NaN = NaN"
  by (cases x) simp_all

lemma scenario_ok: "lookup_ok (scenario lo hi step) \<and> nrb (scenario lo hi step) \<noteq> 0"
  by (simp add: scenario_def lookup_ok_def band_ok_def bw_def nrb_def)

lemma scenario_avrbpdsch: "avrbpdsch (scenario lo hi step) = Inr (Fin 60)"
  by (simp add: scenario_def avrbpdsch_def py_div_def bw_def nrb_def)

lemma bitrateAtDistance_first:
  "k < length ts \<Longrightarrow> k < length bs \<Longrightarrow> fl_ge (ts ! k) d \<Longrightarrow> \<forall>j<k. \<not> fl_ge (ts ! j) d
     \<Longrightarrow> bitrateAtDistance ts bs d = bs ! k"
proof (induction ts bs d arbitrary: k rule: bitrateAtDistance.induct)
  case (1 t ts b bs d)
  show ?case
  proof (cases k)
    case 0
    with "1.prems" show ?thesis by simp
  next
    case (Suc k')
    with "1.prems" have nt: "\<not> fl_ge t d" by auto
    have "bitrateAtDistance ts bs d = bs ! k'"
    proof (rule "1.IH" [OF nt])
      show "k' < length ts" "k' < length bs" "fl_ge (ts ! k') d"
        using "1.prems" Suc by simp_all
      show "\<forall>j<k'. \<not> fl_ge (ts ! j) d"
      proof (intro allI impI)
        fix j assume "j < k'"
        then have "Suc j < k" using Suc by simp
        with "1.prems"(4) have "\<not> fl_ge ((t # ts) ! Suc j) d" by blast
        then show "\<not> fl_ge (ts ! j) d" by simp
      qed
    qed
    with nt Suc show ?thesis by simp
  qed
qed simp_all

lemma bitrateAtDistance_none:
  "\<forall>j<length ts. \<not> fl_ge (ts ! j) d \<Longrightarrow> bitrateAtDistance ts bs d = NaN"
proof (induction ts bs d rule: bitrateAtDistance.induct)
  case (1 t ts b bs d)
  from "1.prems" have nt: "\<not> fl_ge t d" by auto
  have "\<forall>j<length ts. \<not> fl_ge (ts ! j) d"
  proof (intro allI impI)
    fix j assume "j < length ts"
    then have "Suc j < length (t # ts)" by simp
    with "1.prems" have "\<not> fl_ge ((t # ts) ! Suc j) d" by blast
    then show "\<not> fl_ge (ts ! j) d" by simp
  qed
  with "1.IH" [OF nt] nt show ?case by simp
qed simp_all

lemma broadcast2_scalar_left:
  "length xs = 1 \<Longrightarrow> broadcast2 f xs ys = Inr (map (f (hd xs)) ys)"
  by (cases xs; cases ys) (auto simp: broadcast2_def)

lemma broadcast2_scalar_right:
  "length ys = 1 \<Longrightarrow> broadcast2 f xs ys = Inr (map (\<lambda>x. f x (hd ys)) xs)"
  by (cases ys; cases xs) (auto simp: broadcast2_def)

lemma broadcast2_equal:
  "length xs = length ys \<Longrightarrow> broadcast2 f xs ys = Inr (map2 f xs ys)"
  by (simp add: broadcast2_def)

lemma fl_le_trans: "fl_le a b \<Longrightarrow> fl_le b c \<Longrightarrow> fl_le a c"
  by (cases a; cases b; cases c) simp_all

lemma fl_le_refl: "a \<noteq> NaN \<Longrightarrow> fl_le a a"
  by (cases a) simp_all

lemma fl_le_div_1000: "fl_le a b \<Longrightarrow> fl_le (fl_div a (Fin 1000)) (fl_div b (Fin 1000))"
  by (cases a; cases b) (simp_all add: divide_right_mono)

lemma bitrateAtDistance_in_set:
  "length ts \<le> length bs \<Longrightarrow> \<exists>t \<in> set ts. fl_ge t d \<Longrightarrow> bitrateAtDistance ts bs d \<in> set bs"
  by (induction ts bs d rule: bitrateAtDistance.induct) auto

lemma bitrateAtDistance_mono:
  assumes "ascending ts" and "non_increasing bs" and "length ts \<le> length bs"
    and "ts \<noteq> []" and "fl_le d1 d2" and "fl_le d2 (last ts)"
  shows "fl_ge (bitrateAtDistance ts bs d1) (bitrateAtDistance ts bs d2)"
  using assms
proof (induction ts bs d1 arbitrary: rule: bitrateAtDistance.induct)
  case (1 t ts b bs d1)
  from "1.prems"(2) have bnn: "b \<noteq> NaN" and dec: "\<forall>x \<in> set bs. fl_ge b x"
    and nb: "non_increasing bs"
    by (auto simp: non_increasing_def)
  from "1.prems"(1) have at: "ascending ts" by (auto simp: ascending_def)
  from "1.prems"(3) have len: "length ts \<le> length bs" by simp
  show ?case
  proof (cases "fl_ge t d2")
    case True
    then have "fl_le d1 t" using "1.prems"(5) by (auto simp: fl_ge_def intro: fl_le_trans)
    with True bnn show ?thesis by (simp add: fl_ge_def fl_le_refl)
  next
    case nt2: False
    then have ne: "ts \<noteq> []" using "1.prems"(6) by (auto simp: fl_ge_def)
    with "1.prems"(6) have last: "fl_le d2 (last ts)" by simp
    from ne last have ex: "\<exists>t \<in> set ts. fl_ge t d2"
      using last_in_set [OF ne] by (auto simp: fl_ge_def)
    show ?thesis
    proof (cases "fl_ge t d1")
      case True
      from bitrateAtDistance_in_set [OF len ex] dec
      have "fl_ge b (bitrateAtDistance ts bs d2)" by blast
      with True nt2 show ?thesis by simp
    next
      case False
      from "1.IH" [OF False at nb len ne "1.prems"(5) last] False nt2
      show ?thesis by simp
    qed
  qed
qed simp_all

lemma weighted_sum_mono:
  assumes "finite_fl a0" "finite_fl a1" "finite_fl a2"
    and "finite_fl b0" "finite_fl b1" "finite_fl b2"
    and "finite_fl w0" "finite_fl w1" "finite_fl w2"
    and "0 \<le> fin_val w0" "0 \<le> fin_val w1" "0 \<le> fin_val w2"
    and "fl_ge a0 b0" "fl_ge a1 b1" "fl_ge a2 b2"
  shows "fl_ge (fl_add (fl_add (fl_add (Fin 0) (fl_mul a0 w0)) (fl_mul a1 w1)) (fl_mul a2 w2))
               (fl_add (fl_add (fl_add (Fin 0) (fl_mul b0 w0)) (fl_mul b1 w1)) (fl_mul b2 w2))"
proof -
  let ?A = "fl_add (fl_add (fl_add (Fin 0) (fl_mul a0 w0)) (fl_mul a1 w1)) (fl_mul a2 w2)"
  let ?B = "fl_add (fl_add (fl_add (Fin 0) (fl_mul b0 w0)) (fl_mul b1 w1)) (fl_mul b2 w2)"
  have z: "finite_fl (Fin 0)" "fin_val (Fin 0) = 0" by simp_all
  have A: "finite_fl ?A \<and> fin_val ?A
      = fin_val a0 * fin_val w0 + fin_val a1 * fin_val w1 + fin_val a2 * fin_val w2"
    using assms(1-3,7-9) z by (simp add: finite_fl_add finite_fl_mul)
  have B: "finite_fl ?B \<and> fin_val ?B
      = fin_val b0 * fin_val w0 + fin_val b1 * fin_val w1 + fin_val b2 * fin_val w2"
    using assms(4-9) z by (simp add: finite_fl_add finite_fl_mul)
  from assms have "fin_val b0 \<le> fin_val a0" "fin_val b1 \<le> fin_val a1" "fin_val b2 \<le> fin_val a2"
    by (simp_all add: fl_ge_finite)
  with assms(10-12) have "fin_val b0 * fin_val w0 + fin_val b1 * fin_val w1 + fin_val b2 * fin_val w2
      \<le> fin_val a0 * fin_val w0 + fin_val a1 * fin_val w1 + fin_val a2 * fin_val w2"
    by (intro add_mono mult_right_mono)
  with A B show ?thesis by (simp add: fl_ge_finite)
qed

lemma band_monotone_pair:
  assumes "band_ok c b" and "band_monotone c b" and "fl_le d1 d2" and "within_range c b d2"
  shows "finite_fl (bitrateAtDistance (bwdistance_km c b) (bwdlachievbr c b) (fl_div d1 (Fin 1000)))
    \<and> finite_fl (bitrateAtDistance (bwdistance_km c b) (bwdlachievbr c b) (fl_div d2 (Fin 1000)))
    \<and> fl_ge (bitrateAtDistance (bwdistance_km c b) (bwdlachievbr c b) (fl_div d1 (Fin 1000)))
             (bitrateAtDistance (bwdistance_km c b) (bwdlachievbr c b) (fl_div d2 (Fin 1000)))"
proof -
  let ?ts = "bwdistance_km c b" and ?bs = "bwdlachievbr c b"
  let ?k1 = "fl_div d1 (Fin 1000)" and ?k2 = "fl_div d2 (Fin 1000)"
  from assms(1) have ne: "?ts \<noteq> []" and len: "length ?ts \<le> length ?bs"
    by (simp_all add: band_ok_def)
  from assms(2) have asc: "ascending ?ts" and dec: "non_increasing ?bs"
    and fin: "list_all finite_fl ?bs"
    by (simp_all add: band_monotone_def)
  from assms(4) have r2: "fl_le ?k2 (last ?ts)" by (simp add: within_range_def)
  have k12: "fl_le ?k1 ?k2" using assms(3) by (rule fl_le_div_1000)
  have r1: "fl_le ?k1 (last ?ts)" using k12 r2 by (rule fl_le_trans)
  have "\<exists>t \<in> set ?ts. fl_ge t ?k1" "\<exists>t \<in> set ?ts. fl_ge t ?k2"
    using last_in_set [OF ne] r1 r2 by (auto simp: fl_ge_def)
  then have "bitrateAtDistance ?ts ?bs ?k1 \<in> set ?bs" "bitrateAtDistance ?ts ?bs ?k2 \<in> set ?bs"
    using len by (simp_all add: bitrateAtDistance_in_set)
  with fin have "finite_fl (bitrateAtDistance ?ts ?bs ?k1)" "finite_fl (bitrateAtDistance ?ts ?bs ?k2)"
    by (simp_all add: list_all_iff)
  moreover have "fl_ge (bitrateAtDistance ?ts ?bs ?k1) (bitrateAtDistance ?ts ?bs ?k2)"
    using asc dec len ne k12 r2 by (rule bitrateAtDistance_mono)
  ultimately show ?thesis by simp
qed

lemma downlinkBitrate_mono:
  assumes "lookup_ok c"
    and "band_monotone c L850" and "band_monotone c L1800" and "band_monotone c L2600"
    and "weights_nonneg c" and "fl_le d1 d2"
    and "within_range c L850 d2" and "within_range c L1800 d2" and "within_range c L2600 d2"
  shows "fl_ge (downlinkBitrate c d1) (downlinkBitrate c d2)"
proof -
  from assms(1) have k0: "band_ok c L850" and k1: "band_ok c L1800" and k2: "band_ok c L2600"
    by (simp_all add: lookup_ok_def)
  from assms(5) have w0: "0 \<le> bw_L850 c / bw c" and w1: "0 \<le> bw_L1800 c / bw c"
    and w2: "0 \<le> bw_L2600 c / bw c"
    by (simp_all add: weights_nonneg_def)
  from assms(1) have nz: "bw c \<noteq> 0" by (simp add: lookup_ok_def)
  note q0 = finite_fl_quotient [OF nz, of "bw_L850 c"]
  note q1 = finite_fl_quotient [OF nz, of "bw_L1800 c"]
  note q2 = finite_fl_quotient [OF nz, of "bw_L2600 c"]
  note p0 = band_monotone_pair [OF k0 assms(2) assms(6) assms(7)]
  note p1 = band_monotone_pair [OF k1 assms(3) assms(6) assms(8)]
  note p2 = band_monotone_pair [OF k2 assms(4) assms(6) assms(9)]
  show ?thesis
    unfolding downlinkBitrate_def Let_def
  proof (rule weighted_sum_mono)
    show "0 \<le> fin_val (fl_div (Fin (bw_L850 c)) (Fin (bw c)))"
      "0 \<le> fin_val (fl_div (Fin (bw_L1800 c)) (Fin (bw c)))"
      "0 \<le> fin_val (fl_div (Fin (bw_L2600 c)) (Fin (bw c)))"
      using q0 q1 q2 w0 w1 w2 by (simp_all only:)
  qed (use p0 p1 p2 q0 q1 q2 in blast)+
qed

lemma scenario_monotone:
  "band_monotone (scenario lo hi step) L850 \<and> band_monotone (scenario lo hi step) L1800
   \<and> band_monotone (scenario lo hi step) L2600 \<and> weights_nonneg (scenario lo hi step)"
  by (simp add: scenario_def band_monotone_def ascending_def non_increasing_def fl_ge_def
      weights_nonneg_def bw_def)





lemma set_drop_duplicates: "set (drop_duplicates key xs) \<subseteq> set xs"
  by (induction key xs rule: drop_duplicates.induct) auto

lemma keys_drop_duplicates: "key ` set (drop_duplicates key xs) = key ` set xs"
proof (induction key xs rule: drop_duplicates.induct)
  case (1 key)
  then show ?case by simp
next
  case (2 key x xs)
  have "key ` set (x # xs) = insert (key x) (key ` set (filter (\<lambda>y. key y \<noteq> key x) xs))"
    by auto
  with "2.IH" show ?case by simp
qed




section \<open>The visibility stage and the merge\<close>

lemma apply_visibility_calls:
  "apply_visibility oracle rows calls = (out, calls') \<Longrightarrow> calls' = calls @ oracle_calls_of out"
proof (induction rows arbitrary: calls out calls')
  case Nil
  then show ?case by (simp add: oracle_calls_of_def)
next
  case (Cons row rows)
  obtain d v calls1 where g: "get_visibility_status oracle row calls = ((d, v), calls1)"
    by (metis prod.exhaust)
  obtain out1 calls2 where a: "apply_visibility oracle rows calls1 = (out1, calls2)"
    by (metis prod.exhaust)
  from Cons.prems g a have out: "out = \<lparr>row_poi = fst row, ict_id = snd row,
      ground_distance = d, is_visible = v\<rparr> # out1" and c: "calls' = calls2"
    by simp_all
  from g have "calls1 = calls @ (case snd row of None \<Rightarrow> [] | Some s \<Rightarrow> [(poi_id (fst row), s)])"
    by (auto simp: get_visibility_status_def split: option.splits prod.splits)
  with Cons.IH [OF a] show ?case
    unfolding out c by (simp add: oracle_calls_of_def split: option.splits)
qed

lemma apply_visibility_rows:
  "apply_visibility oracle rows calls = (out, calls') \<Longrightarrow> r \<in> set out \<Longrightarrow>
     (case ict_id r of
        None \<Rightarrow> ground_distance r = NaN \<and> is_visible r = None
      | Some s \<Rightarrow> ground_distance r = fst (oracle (poi_id (row_poi r)) s)
                  \<and> is_visible r = Some (snd (oracle (poi_id (row_poi r)) s)))"
proof (induction rows arbitrary: calls out calls')
  case Nil
  then show ?case by simp
next
  case (Cons row rows)
  obtain d v calls1 where g: "get_visibility_status oracle row calls = ((d, v), calls1)"
    by (metis prod.exhaust)
  obtain out1 calls2 where a: "apply_visibility oracle rows calls1 = (out1, calls2)"
    by (metis prod.exhaust)
  from Cons.prems(1) g a have out: "out = \<lparr>row_poi = fst row, ict_id = snd row,
      ground_distance = d, is_visible = v\<rparr> # out1"
    by simp
  show ?case
  proof (cases "r \<in> set out1")
    case True
    from Cons.IH [OF a True] show ?thesis .
  next
    case False
    with Cons.prems(2) out have r: "r = \<lparr>row_poi = fst row, ict_id = snd row,
      ground_distance = d, is_visible = v\<rparr>" by simp
    from g show ?thesis
      unfolding r by (auto simp: get_visibility_status_def split: option.splits prod.splits)
  qed
qed

lemma merge_left_rows:
  "r \<in> set (merge_left pois tbl) \<Longrightarrow>
     (case ict_id r of
        None \<Rightarrow> ground_distance r = NaN \<and> is_visible r = None
               \<and> \<not> (\<exists>v \<in> set tbl. vp_poi_id v = poi_id (row_poi r))
      | Some s \<Rightarrow> (\<exists>v \<in> set tbl. vp_poi_id v = poi_id (row_poi r) \<and> s = vp_ict_id v
                    \<and> ground_distance r = vp_ground_distance v
                    \<and> is_visible r = Some (vp_is_visible v)))"
proof -
  assume "r \<in> set (merge_left pois tbl)"
  then obtain p where p: "p \<in> set pois"
    and r: "r \<in> set (case filter (\<lambda>v. vp_poi_id v = poi_id p) tbl of
                         [] \<Rightarrow> [\<lparr>row_poi = p, ict_id = None, ground_distance = NaN,
                                 is_visible = None\<rparr>]
                       | m # ms \<Rightarrow> map (\<lambda>v. \<lparr>row_poi = p, ict_id = Some (vp_ict_id v),
                                 ground_distance = vp_ground_distance v,
                                 is_visible = Some (vp_is_visible v)\<rparr>) (m # ms))"
    by (auto simp: merge_left_def)
  show ?thesis
  proof (cases "filter (\<lambda>v. vp_poi_id v = poi_id p) tbl")
    case Nil
    with r have "r = \<lparr>row_poi = p, ict_id = None, ground_distance = NaN, is_visible = None\<rparr>"
      by simp
    moreover from Nil have "\<not> (\<exists>v \<in> set tbl. vp_poi_id v = poi_id p)"
      by (auto simp: filter_empty_conv)
    ultimately show ?thesis by simp
  next
    case (Cons m ms)
    with r obtain v where v: "v \<in> set (filter (\<lambda>v. vp_poi_id v = poi_id p) tbl)"
      and rv: "r = \<lparr>row_poi = p, ict_id = Some (vp_ict_id v),
                   ground_distance = vp_ground_distance v,
                   is_visible = Some (vp_is_visible v)\<rparr>"
      by auto
    from v have "v \<in> set tbl" "vp_poi_id v = poi_id p" by simp_all
    with rv show ?thesis by auto
  qed
qed

lemma unassigned_distance:
  assumes "visibility_analysis containing oracle visibility pois calls = Inr (rows, calls')"
    and "r \<in> set rows" and "ict_id r = None"
  shows "ground_distance r = NaN"
proof (cases visibility)
  case None
  with assms(1) obtain rows0 where "apply_visibility oracle rows0 calls = (rows, calls')"
    by (auto simp: visibility_analysis_def Let_def split: if_splits)
  from apply_visibility_rows [OF this assms(2)] assms(3) show ?thesis by simp
next
  case (Some tbl)
  with assms(1) have "rows = merge_left pois (filter (\<lambda>v. vp_order v = 1) tbl)"
    by (simp add: visibility_analysis_def Let_def)
  with merge_left_rows [of r pois "filter (\<lambda>v. vp_order v = 1) tbl"] assms(2,3)
  show ?thesis by simp
qed

lemma sufcapch_equal:
  "length xs = length ys \<Longrightarrow> sufcapch xs ys = Inr (map2 fl_gt xs ys)"
  by (simp add: sufcapch_def broadcast2_def)

lemma merge_poi_and_cell_site_rows:
  "\<exists>out. merge_poi_and_cell_site c cellsites_rbu rows = Inr out \<and> length out = length rows
     \<and> (\<forall>k<length rows.
          row_poi (out ! k) = row_poi (rows ! k) \<and> ict_id (out ! k) = ict_id (rows ! k)
          \<and> ground_distance (out ! k) = ground_distance (rows ! k)
          \<and> is_visible (out ! k) = is_visible (rows ! k)
          \<and> rbdlthtarg (out ! k) = poiddatareq c (map ground_distance rows) ! k
          \<and> (ict_id (rows ! k) = None \<longrightarrow> col_cellavcap (out ! k) = Fin 0)
          \<and> col_sufcapch (out ! k) = fl_gt (col_cellavcap (out ! k)) (rbdlthtarg (out ! k)))"
  unfolding merge_poi_and_cell_site_def Let_def
  by (simp add: sufcapch_equal length_poiddatareq fillna0_def)

lemma poiddatareq_undefined:
  assumes "k < length d" and "d ! k = NaN"
  shows "poiddatareq c d ! k = PInf \<or> poiddatareq c d ! k = NaN"
proof (cases "get_dl_bitrate c d")
  case (Inl e)
  with assms(1) show ?thesis by (simp add: poiddatareq_def)
next
  case (Inr dl)
  note dl = get_dl_bitrate_Inr [OF Inr]
  show ?thesis
  proof (cases "avrbpdsch c")
    case (Inl e)
    with Inr assms(1) show ?thesis by (simp add: poiddatareq_def Let_def)
  next
    case av: (Inr av)
    have "poiddatareq c d =
       map (\<lambda>x. if fl_le x (Fin (of_int (max_radius c)))
               then fl_div (Fin (dlthtarg c * 1024)) (fl_div (downlinkBitrate c x) av)
               else PInf) d"
      unfolding poiddatareq_def Let_def Inr av sum.case dl by (rule mask_assign)
    with assms show ?thesis by simp
  qed
qed

lemma calculate_buffer_areas_Inr:
  assumes "calculate_buffer_areas c cellsites pois visibility containing oracle cellsites_rbu calls
             = Inr (rings, out, calls')"
  shows "\<exists>rows. generate_rings c cellsites = Inr rings
           \<and> visibility_analysis containing oracle visibility pois calls = Inr (rows, calls')
           \<and> merge_poi_and_cell_site c cellsites_rbu rows = Inr out"
  using assms by (auto simp: calculate_buffer_areas_def split: sum.splits prod.splits)

lemma oracle_calls_of_cong:
  assumes "length out = length rows"
    and "\<forall>k<length rows. row_poi (out ! k) = row_poi (rows ! k) \<and> ict_id (out ! k) = ict_id (rows ! k)"
  shows "oracle_calls_of out = oracle_calls_of rows"
proof -
  have "map (\<lambda>r. case ict_id r of None \<Rightarrow> [] | Some s \<Rightarrow> [(poi_id (row_poi r), s)]) out
      = map (\<lambda>r. case ict_id r of None \<Rightarrow> [] | Some s \<Rightarrow> [(poi_id (row_poi r), s)]) rows"
  proof (rule nth_equalityI)
    show "length (map (\<lambda>r. case ict_id r of None \<Rightarrow> []
              | Some s \<Rightarrow> [(poi_id (row_poi r), s)]) out)
        = length (map (\<lambda>r. case ict_id r of None \<Rightarrow> []
              | Some s \<Rightarrow> [(poi_id (row_poi r), s)]) rows)"
      using assms(1) by simp
  next
    fix i
    assume "i < length (map (\<lambda>r. case ict_id r of None \<Rightarrow> []
              | Some s \<Rightarrow> [(poi_id (row_poi r), s)]) out)"
    with assms show "map (\<lambda>r. case ict_id r of None \<Rightarrow> []
              | Some s \<Rightarrow> [(poi_id (row_poi r), s)]) out ! i
        = map (\<lambda>r. case ict_id r of None \<Rightarrow> []
              | Some s \<Rightarrow> [(poi_id (row_poi r), s)]) rows ! i"
      by (simp split: option.splits)
  qed
  then show ?thesis by (simp add: oracle_calls_of_def)
qed

lemma demo_live_vis:
  "visibility_analysis demo_containing demo_oracle None demo_pois []
     = Inr ([\<lparr>row_poi = \<lparr>poi_id = 1, lat = 10, lon = 20\<rparr>, ict_id = Some 7,
               ground_distance = Fin 1500, is_visible = Some True\<rparr>,
             \<lparr>row_poi = \<lparr>poi_id = 2, lat = 11, lon = 21\<rparr>, ict_id = None,
               ground_distance = NaN, is_visible = None\<rparr>,
             \<lparr>row_poi = \<lparr>poi_id = 3, lat = 12, lon = 22\<rparr>, ict_id = Some 8,
               ground_distance = Fin 2500, is_visible = Some False\<rparr>], [(1, 7), (3, 8)])"
  by (simp add: visibility_analysis_def sjoin_left_def demo_pois_def demo_containing_def
      demo_oracle_def get_visibility_status_def)

lemma demo_rb:
  "poiddatareq (scenario 500 2000 500) [Fin 1500, NaN, Fin 2500] = [Fin (4608 / 145), PInf, PInf]"
  using poiddatareq_ok [OF scenario_ok [THEN conjunct1] scenario_avrbpdsch, of 500 2000 500]
  by (simp add: scenario_def downlinkBitrate_def fl_ge_def bw_def)

lemma demo_merge:
  "merge_poi_and_cell_site (scenario 500 2000 500) demo_rbu
     [\<lparr>row_poi = \<lparr>poi_id = 1, lat = 10, lon = 20\<rparr>, ict_id = Some 7,
               ground_distance = Fin 1500, is_visible = Some True\<rparr>,
             \<lparr>row_poi = \<lparr>poi_id = 2, lat = 11, lon = 21\<rparr>, ict_id = None,
               ground_distance = NaN, is_visible = None\<rparr>,
             \<lparr>row_poi = \<lparr>poi_id = 3, lat = 12, lon = 22\<rparr>, ict_id = Some 8,
               ground_distance = Fin 2500, is_visible = Some False\<rparr>] = Inr demo_out_live"
  by (simp add: merge_poi_and_cell_site_def demo_rb sufcapch_equal fillna0_def demo_rbu_def
      demo_out_live_def fl_gt_def upt_rec)

lemma demo_rings: "\<exists>rings. generate_rings (scenario 500 2000 500) [7, 8] = Inr rings"
  by (simp add: generate_rings_def py_range_def scenario_def)

lemma demo_live:
  "\<exists>rings. calculate_buffer_areas (scenario 500 2000 500) [7, 8] demo_pois None demo_containing
     demo_oracle demo_rbu [] = Inr (rings, demo_out_live, [(1, 7), (3, 8)])"
proof -
  from demo_rings obtain rings where
    r: "generate_rings (scenario 500 2000 500) [7, 8] = Inr rings" ..
  show ?thesis
    unfolding calculate_buffer_areas_def r demo_live_vis sum.case prod.case demo_merge
    by simp
qed

lemma merge_fields:
  assumes "merge_poi_and_cell_site c cellsites_rbu rows = Inr out" and "r \<in> set out"
  shows "\<exists>k<length rows. r = out ! k \<and> length out = length rows
          \<and> row_poi r = row_poi (rows ! k) \<and> ict_id r = ict_id (rows ! k)
          \<and> ground_distance r = ground_distance (rows ! k)
          \<and> is_visible r = is_visible (rows ! k)"
proof -
  from merge_poi_and_cell_site_rows [of c cellsites_rbu rows] assms(1)
  have len: "length out = length rows"
    and f: "\<forall>k<length rows.
          row_poi (out ! k) = row_poi (rows ! k) \<and> ict_id (out ! k) = ict_id (rows ! k)
          \<and> ground_distance (out ! k) = ground_distance (rows ! k)
          \<and> is_visible (out ! k) = is_visible (rows ! k)"
    by auto
  from assms(2) len obtain k where "k < length rows" "r = out ! k"
    by (auto simp: in_set_conv_nth)
  with f len show ?thesis by auto
qed

lemma demo_pre_vis:
  "visibility_analysis containing oracle (Some demo_visibility) demo_pois []
     = Inr ([\<lparr>row_poi = \<lparr>poi_id = 1, lat = 10, lon = 20\<rparr>, ict_id = Some 7,
               ground_distance = Fin 1500, is_visible = Some True\<rparr>,
             \<lparr>row_poi = \<lparr>poi_id = 2, lat = 11, lon = 21\<rparr>, ict_id = None,
               ground_distance = NaN, is_visible = None\<rparr>,
             \<lparr>row_poi = \<lparr>poi_id = 3, lat = 12, lon = 22\<rparr>, ict_id = Some 9,
               ground_distance = Fin 400, is_visible = Some False\<rparr>], [])"
  by (simp add: visibility_analysis_def merge_left_def demo_pois_def demo_visibility_def)

lemma demo_rb_pre:
  "poiddatareq (scenario 500 2000 500) [Fin 1500, NaN, Fin 400]
     = [Fin (4608 / 145), PInf, Fin (512 / 25)]"
  using poiddatareq_ok [OF scenario_ok [THEN conjunct1] scenario_avrbpdsch, of 500 2000 500]
  by (simp add: scenario_def downlinkBitrate_def fl_ge_def bw_def)

lemma demo_merge_pre:
  "merge_poi_and_cell_site (scenario 500 2000 500) demo_rbu
     [\<lparr>row_poi = \<lparr>poi_id = 1, lat = 10, lon = 20\<rparr>, ict_id = Some 7,
               ground_distance = Fin 1500, is_visible = Some True\<rparr>,
             \<lparr>row_poi = \<lparr>poi_id = 2, lat = 11, lon = 21\<rparr>, ict_id = None,
               ground_distance = NaN, is_visible = None\<rparr>,
             \<lparr>row_poi = \<lparr>poi_id = 3, lat = 12, lon = 22\<rparr>, ict_id = Some 9,
               ground_distance = Fin 400, is_visible = Some False\<rparr>] = Inr demo_out_pre"
  by (simp add: merge_poi_and_cell_site_def demo_rb_pre sufcapch_equal fillna0_def demo_rbu_def
      demo_out_pre_def fl_gt_def upt_rec)

lemma demo_pre:
  "\<exists>rings. calculate_buffer_areas (scenario 500 2000 500) [7, 8] demo_pois (Some demo_visibility)
     demo_containing demo_oracle demo_rbu [] = Inr (rings, demo_out_pre, [])"
proof -
  from demo_rings obtain rings where
    r: "generate_rings (scenario 500 2000 500) [7, 8] = Inr rings" ..
  show ?thesis
    unfolding calculate_buffer_areas_def r demo_pre_vis sum.case prod.case demo_merge_pre
    by simp
qed

lemma sjoin_left_mem:
  "(q, s) \<in> set (sjoin_left containing pois) \<Longrightarrow>
     q \<in> set pois \<and> (containing q = [] \<longrightarrow> s = None)"
proof -
  assume "(q, s) \<in> set (sjoin_left containing pois)"
  then obtain x where x: "x \<in> set pois"
    and m: "(q, s) \<in> set (case containing x of [] \<Rightarrow> [(x, None)]
                               | t # ts \<Rightarrow> map (\<lambda>t. (x, Some t)) (t # ts))"
    by (auto simp: sjoin_left_def)
  show ?thesis
  proof (cases "containing x")
    case Nil
    with m x show ?thesis by simp
  next
    case (Cons t ts)
    with m have "q = x" by auto
    with Cons x show ?thesis by simp
  qed
qed

lemma sjoin_left_unassigned:
  "p \<in> set pois \<Longrightarrow> containing p = [] \<Longrightarrow> (p, None) \<in> set (sjoin_left containing pois)"
  by (force simp: sjoin_left_def)

lemma apply_visibility_map:
  "apply_visibility oracle rows calls = (out, calls') \<Longrightarrow>
     map (\<lambda>r. (row_poi r, ict_id r)) out = rows"
proof (induction rows arbitrary: calls out calls')
  case Nil
  then show ?case by simp
next
  case (Cons row rows)
  obtain d v calls1 where g: "get_visibility_status oracle row calls = ((d, v), calls1)"
    by (metis prod.exhaust)
  obtain out1 calls2 where a: "apply_visibility oracle rows calls1 = (out1, calls2)"
    by (metis prod.exhaust)
  from Cons.prems g a have out: "out = \<lparr>row_poi = fst row, ict_id = snd row,
      ground_distance = d, is_visible = v\<rparr> # out1"
    by simp
  from Cons.IH [OF a] show ?case unfolding out by simp
qed

lemma merge_left_unassigned:
  assumes "p \<in> set pois" and "\<not> (\<exists>v \<in> set tbl. vp_poi_id v = poi_id p)"
  shows "\<lparr>row_poi = p, ict_id = None, ground_distance = NaN, is_visible = None\<rparr>
           \<in> set (merge_left pois tbl)"
proof -
  from assms(2) have "filter (\<lambda>v. vp_poi_id v = poi_id p) tbl = []"
    by (auto simp: filter_empty_conv)
  with assms(1) show ?thesis by (force simp: merge_left_def)
qed

lemma unassigned_row:
  assumes "visibility_analysis containing oracle visibility pois calls = Inr (rows, calls')"
    and "p \<in> set pois" and "unassigned visibility containing pois p"
  shows "\<exists>row \<in> set rows. poi_id (row_poi row) = poi_id p \<and> ict_id row = None"
proof (cases visibility)
  case None
  let ?key = "\<lambda>row :: poi \<times> nat option. poi_id (fst row)"
  let ?rows0 = "drop_duplicates ?key (sjoin_left containing pois)"
  from None assms(1) have av: "apply_visibility oracle ?rows0 calls = (rows, calls')"
    by (auto simp: visibility_analysis_def Let_def split: if_splits)
  from None assms(3) have un: "\<forall>q \<in> set pois. poi_id q = poi_id p \<longrightarrow> containing q = []"
    by (simp add: unassigned_def list_all_iff)
  with assms(2) have "(p, None) \<in> set (sjoin_left containing pois)"
    by (intro sjoin_left_unassigned) auto
  then have "poi_id p \<in> ?key ` set (sjoin_left containing pois)" by force
  then have "poi_id p \<in> ?key ` set ?rows0" by (simp only: keys_drop_duplicates)
  then obtain q s where qs: "(q, s) \<in> set ?rows0" and id: "poi_id q = poi_id p" by force
  from qs set_drop_duplicates [of ?key "sjoin_left containing pois"]
  have "(q, s) \<in> set (sjoin_left containing pois)" by blast
  from sjoin_left_mem [OF this] un id have "s = None" by simp
  with qs have "(q, None) \<in> set (map (\<lambda>r. (row_poi r, ict_id r)) rows)"
    by (simp only: apply_visibility_map [OF av])
  then obtain row where "row \<in> set rows" "row_poi row = q" "ict_id row = None" by auto
  with id show ?thesis by auto
next
  case (Some tbl)
  with assms(1) have rows: "rows = merge_left pois (filter (\<lambda>v. vp_order v = 1) tbl)"
    by (simp add: visibility_analysis_def Let_def)
  from Some assms(3)
  have "\<not> (\<exists>v \<in> set (filter (\<lambda>v. vp_order v = 1) tbl). vp_poi_id v = poi_id p)"
    by (auto simp: unassigned_def list_ex_iff)
  from merge_left_unassigned [OF assms(2) this] show ?thesis
    unfolding rows by force
qed

lemma poiddatareq_nan_position:
  assumes "lookup_ok c" and "nrb c \<noteq> 0" and "i < length d" and "d ! i = NaN"
  shows "poiddatareq c d ! i = PInf"
proof -
  from assms(2) avrbpdsch_total obtain av where "avrbpdsch c = Inr av" by blast
  from poiddatareq_ok [OF assms(1) this, of d] assms(3,4) show ?thesis by simp
qed

lemma poiddatareq_raised:
  assumes "(\<exists>e. get_dl_bitrate c d = Inl e) \<or> (\<exists>e. avrbpdsch c = Inl e)"
  shows "poiddatareq c d = replicate (length d) NaN"
  using assms by (auto simp: poiddatareq_def Let_def split: sum.splits)

lemma unassigned_result:
  assumes "lookup_ok c" and "nrb c \<noteq> 0"
    and "visibility_analysis containing oracle visibility pois calls = Inr (rows, calls')"
    and "merge_poi_and_cell_site c cellsites_rbu rows = Inr out"
    and "k < length rows" and "ict_id (rows ! k) = None"
  shows "out ! k \<in> set out \<and> row_poi (out ! k) = row_poi (rows ! k)
    \<and> ict_id (out ! k) = None \<and> ground_distance (out ! k) = NaN
    \<and> rbdlthtarg (out ! k) = PInf"
proof -
  from merge_poi_and_cell_site_rows [of c cellsites_rbu rows] assms(4)
  have len: "length out = length rows"
    and f: "\<forall>k<length rows.
          row_poi (out ! k) = row_poi (rows ! k) \<and> ict_id (out ! k) = ict_id (rows ! k)
          \<and> ground_distance (out ! k) = ground_distance (rows ! k)
          \<and> is_visible (out ! k) = is_visible (rows ! k)
          \<and> rbdlthtarg (out ! k) = poiddatareq c (map ground_distance rows) ! k"
    by auto
  from assms(5) have "rows ! k \<in> set rows" by simp
  from unassigned_distance [OF assms(3) this assms(6)]
  have nan: "ground_distance (rows ! k) = NaN" .
  with assms(5) have "poiddatareq c (map ground_distance rows) ! k = PInf"
    by (intro poiddatareq_nan_position [OF assms(1,2)]) simp_all
  with f assms(5,6) nan len show ?thesis by simp
qed

section \<open>The scenario, computed\<close>

text \<open>
  C1 (counterexample). In the scenario, with every radius up to 2000 m served, the
  downlink bitrate at 1500 m is not 15000 kbps and the required number of resource blocks
  is not 20.48: at 1.5 km the band L1800 is at its second breakpoint (3 km, 8000 kbps) and
  the band L2600 at its third (2 km, 1000 kbps).
\<close>

theorem C1_counterexample:
  "get_dl_bitrate (scenario 500 2000 500) [Fin 1500] \<noteq> Inr [Fin 15000]
   \<and> poiddatareq (scenario 500 2000 500) [Fin 1500] \<noteq> [Fin (2048 / 100)]"
  by (simp add: scenario_def get_dl_bitrate_def weights_def py_div_def bw_def
      band_dl_bitrate_def fl_ge_def argmax_bool_def dot_def nrb_def avrbpdsch_def
      poiddatareq_def Let_def)

text \<open>
  C1 (amended). For every configuration with the bandwidths 10/10/10 MHz, the three band
  tables of the scenario, 10 % overhead, multiplier 5, a target of 5 Mbps and a maximal
  radius of at least 1500 m: the downlink bitrate at 1500 m is 29000/3 kbps (the mean of
  20000, 8000 and 1000), there are 150 resource blocks, 60 of them available, and
  the target needs 4608/145 (about 31.78) resource blocks.
\<close>

theorem C1_scenario_values:
  assumes "bw_L850 c = 10" and "bw_L1800 c = 10" and "bw_L2600 c = 10"
    and "cco c = 10" and "rb_num_multiplier c = 5" and "dlthtarg c = 5"
    and "bwdistance_km c L850 = [Fin 2, Fin 5, Fin 10]"
    and "bwdlachievbr c L850 = [Fin 20000, Fin 10000, Fin 5000]"
    and "bwdistance_km c L1800 = [Fin 1, Fin 3, Fin 6]"
    and "bwdlachievbr c L1800 = [Fin 15000, Fin 8000, Fin 3000]"
    and "bwdistance_km c L2600 = [Fin (1 / 2), Fin 1, Fin 2]"
    and "bwdlachievbr c L2600 = [Fin 10000, Fin 5000, Fin 1000]"
    and "1500 \<le> max_radius c"
  shows "get_dl_bitrate c [Fin 1500] = Inr [Fin (29000 / 3)]
    \<and> nrb c = 150 \<and> avrbpdsch c = Inr (Fin 60)
    \<and> poiddatareq c [Fin 1500] = [Fin (4608 / 145)]"
proof -
  have g: "get_dl_bitrate c [Fin 1500] = Inr [Fin (29000 / 3)]"
    using assms
    by (simp add: get_dl_bitrate_def weights_def py_div_def bw_def band_dl_bitrate_def
        fl_ge_def argmax_bool_def dot_def Let_def)
  have n: "nrb c = 150"
    using assms by (simp add: nrb_def bw_def)
  have a: "avrbpdsch c = Inr (Fin 60)"
    using assms by (simp add: avrbpdsch_def py_div_def n)
  have "poiddatareq c [Fin 1500] = [Fin (4608 / 145)]"
    using assms by (simp add: poiddatareq_def g a Let_def)
  with g n a show ?thesis by simp
qed

theorem C1_scenario_values_witness:
  "get_dl_bitrate (scenario 500 2000 500) [Fin 1500] = Inr [Fin (29000 / 3)]
    \<and> nrb (scenario 500 2000 500) = 150
    \<and> avrbpdsch (scenario 500 2000 500) = Inr (Fin 60)
    \<and> poiddatareq (scenario 500 2000 500) [Fin 1500] = [Fin (4608 / 145)]"
  using C1_scenario_values [of "scenario 500 2000 500"] by (simp add: scenario_def)

section \<open>Required resource blocks beyond the maximal radius\<close>

text \<open>
  C2 (counterexample). In the scenario with a maximal radius of 2000 m, a distance that is
  not-a-number gets an infinite requirement although it is not greater than the maximal
  radius; and when the bitrate tables hold zeros, a distance of 1500 m, within the maximal
  radius, gets an infinite requirement too. The infinite positions are not exactly those
  with \<open>d > max_radius\<close>.
\<close>

theorem C2_counterexample:
  "poiddatareq (scenario 500 2000 500) [NaN] = [PInf] \<and> \<not> fl_gt NaN (Fin 2000)
   \<and> poiddatareq ((scenario 500 2000 500)\<lparr>bwdlachievbr := \<lambda>b. [Fin 0, Fin 0, Fin 0]\<rparr>)
         [Fin 1500] = [PInf]
   \<and> \<not> fl_gt (Fin 1500) (Fin 2000)"
  by (simp add: scenario_def get_dl_bitrate_def weights_def py_div_def bw_def
      band_dl_bitrate_def fl_ge_def fl_gt_def argmax_bool_def dot_def nrb_def avrbpdsch_def
      poiddatareq_def Let_def)

text \<open>
  C2 (amended). \<open>poiddatareq\<close> returns an array of the length of its input for every
  configuration and every input: it never raises. When the lookup raises nothing (total
  bandwidth and number of resource blocks other than zero, each band's table with a
  breakpoint and a bitrate for every breakpoint), then whatever the tables hold, every
  position whose distance fails \<open>d \<le> max_radius\<close> (greater, or not-a-number) holds
  positive infinity; every other position holds the float quotient of the target
  \<open>dlthtarg * 1024\<close> by the bitrate per resource block at that distance (the downlink
  bitrate divided by \<open>avrbpdsch\<close>); and each position is what \<open>poiddatareq\<close> returns
  for that distance alone. So the result is positive infinity exactly at the positions
  that fail \<open>d \<le> max_radius\<close> or whose quotient is itself positive infinity.
\<close>

theorem C2_unserviceable:
  "length (poiddatareq c d) = length d
   \<and> (lookup_ok c \<and> nrb c \<noteq> 0 \<longrightarrow>
        (\<exists>av. avrbpdsch c = Inr av
           \<and> (\<forall>i<length d.
                 poiddatareq c d ! i =
                   (if fl_le (d ! i) (Fin (of_int (max_radius c)))
                    then fl_div (Fin (dlthtarg c * 1024))
                           (fl_div (downlinkBitrate c (d ! i)) av)
                    else PInf)
                 \<and> (poiddatareq c d ! i = PInf \<longleftrightarrow>
                      \<not> fl_le (d ! i) (Fin (of_int (max_radius c)))
                      \<or> fl_div (Fin (dlthtarg c * 1024))
                           (fl_div (downlinkBitrate c (d ! i)) av) = PInf)
                 \<and> poiddatareq c d ! i = poiddatareq c [d ! i] ! 0)))"
proof (rule conjI)
  show "length (poiddatareq c d) = length d" by (rule length_poiddatareq)
next
  show "lookup_ok c \<and> nrb c \<noteq> 0 \<longrightarrow>
        (\<exists>av. avrbpdsch c = Inr av
           \<and> (\<forall>i<length d.
                 poiddatareq c d ! i =
                   (if fl_le (d ! i) (Fin (of_int (max_radius c)))
                    then fl_div (Fin (dlthtarg c * 1024))
                           (fl_div (downlinkBitrate c (d ! i)) av)
                    else PInf)
                 \<and> (poiddatareq c d ! i = PInf \<longleftrightarrow>
                      \<not> fl_le (d ! i) (Fin (of_int (max_radius c)))
                      \<or> fl_div (Fin (dlthtarg c * 1024))
                           (fl_div (downlinkBitrate c (d ! i)) av) = PInf)
                 \<and> poiddatareq c d ! i = poiddatareq c [d ! i] ! 0))"
  proof
    assume ok: "lookup_ok c \<and> nrb c \<noteq> 0"
    then have l: "lookup_ok c" by simp
    from ok avrbpdsch_total obtain av where av: "avrbpdsch c = Inr av" by blast
    have "\<forall>i<length d.
                 poiddatareq c d ! i =
                   (if fl_le (d ! i) (Fin (of_int (max_radius c)))
                    then fl_div (Fin (dlthtarg c * 1024))
                           (fl_div (downlinkBitrate c (d ! i)) av)
                    else PInf)
                 \<and> (poiddatareq c d ! i = PInf \<longleftrightarrow>
                      \<not> fl_le (d ! i) (Fin (of_int (max_radius c)))
                      \<or> fl_div (Fin (dlthtarg c * 1024))
                           (fl_div (downlinkBitrate c (d ! i)) av) = PInf)
                 \<and> poiddatareq c d ! i = poiddatareq c [d ! i] ! 0"
    proof (intro allI impI)
      fix i assume i: "i < length d"
      have e: "poiddatareq c d ! i =
                   (if fl_le (d ! i) (Fin (of_int (max_radius c)))
                    then fl_div (Fin (dlthtarg c * 1024))
                           (fl_div (downlinkBitrate c (d ! i)) av)
                    else PInf)"
        using i by (simp add: poiddatareq_ok [OF l av])
      have s: "poiddatareq c d ! i = poiddatareq c [d ! i] ! 0"
        unfolding e by (simp add: poiddatareq_ok [OF l av, of "[d ! i]"])
      from e s show "poiddatareq c d ! i =
                   (if fl_le (d ! i) (Fin (of_int (max_radius c)))
                    then fl_div (Fin (dlthtarg c * 1024))
                           (fl_div (downlinkBitrate c (d ! i)) av)
                    else PInf)
                 \<and> (poiddatareq c d ! i = PInf \<longleftrightarrow>
                      \<not> fl_le (d ! i) (Fin (of_int (max_radius c)))
                      \<or> fl_div (Fin (dlthtarg c * 1024))
                           (fl_div (downlinkBitrate c (d ! i)) av) = PInf)
                 \<and> poiddatareq c d ! i = poiddatareq c [d ! i] ! 0"
        by (simp split: if_splits)
    qed
    with av show "\<exists>av. avrbpdsch c = Inr av
           \<and> (\<forall>i<length d.
                 poiddatareq c d ! i =
                   (if fl_le (d ! i) (Fin (of_int (max_radius c)))
                    then fl_div (Fin (dlthtarg c * 1024))
                           (fl_div (downlinkBitrate c (d ! i)) av)
                    else PInf)
                 \<and> (poiddatareq c d ! i = PInf \<longleftrightarrow>
                      \<not> fl_le (d ! i) (Fin (of_int (max_radius c)))
                      \<or> fl_div (Fin (dlthtarg c * 1024))
                           (fl_div (downlinkBitrate c (d ! i)) av) = PInf)
                 \<and> poiddatareq c d ! i = poiddatareq c [d ! i] ! 0)"
      by blast
  qed
qed

theorem C2_unserviceable_witness:
  "length (poiddatareq (scenario 500 2000 500) [Fin 1500, Fin 2500, NaN]) = 3
   \<and> poiddatareq (scenario 500 2000 500) [Fin 1500, Fin 2500, NaN] ! 0 = Fin (4608 / 145)
   \<and> poiddatareq (scenario 500 2000 500) [Fin 1500, Fin 2500, NaN] ! 1 = PInf
   \<and> poiddatareq (scenario 500 2000 500) [Fin 1500, Fin 2500, NaN] ! 2 = PInf
   \<and> poiddatareq ((scenario 500 2000 500)\<lparr>cco := 110, bwdlachievbr := \<lambda>b. [Fin 0, Fin 0, Fin 0]\<rparr>)
        [Fin 1500, Fin 2500] ! 0 = NInf
   \<and> poiddatareq ((scenario 500 2000 500)\<lparr>cco := 100, bwdlachievbr := \<lambda>b. [Fin 0, Fin 0, Fin 0]\<rparr>)
        [Fin 1500, Fin 2500] ! 0 = NaN"
proof -
  let ?c = "scenario 500 2000 500" and ?d = "[Fin 1500, Fin 2500, NaN]"
  let ?n = "(scenario 500 2000 500)\<lparr>cco := 110, bwdlachievbr := \<lambda>b. [Fin 0, Fin 0, Fin 0]\<rparr>"
  let ?z = "(scenario 500 2000 500)\<lparr>cco := 100, bwdlachievbr := \<lambda>b. [Fin 0, Fin 0, Fin 0]\<rparr>"
  let ?e = "[Fin 1500, Fin 2500]"
  from C2_unserviceable [of ?c ?d] scenario_ok [of 500 2000 500]
    scenario_avrbpdsch [of 500 2000 500]
  have len: "length (poiddatareq ?c ?d) = 3"
    and el: "\<forall>i<3. poiddatareq ?c ?d ! i =
             (if fl_le (?d ! i) (Fin (of_int (max_radius ?c)))
              then fl_div (Fin (dlthtarg ?c * 1024))
                     (fl_div (downlinkBitrate ?c (?d ! i)) (Fin 60))
              else PInf)"
    by auto
  have "poiddatareq ?c ?d ! 0 = Fin (4608 / 145)"
    using el by (simp add: scenario_def downlinkBitrate_def fl_ge_def bw_def)
  moreover have "poiddatareq ?c ?d ! 1 = PInf"
    using el by (simp add: scenario_def)
  moreover have "poiddatareq ?c ?d ! 2 = PInf"
    using el by (simp add: scenario_def)
  moreover have "poiddatareq ?n ?e ! 0 = NInf"
  proof -
    have ok: "lookup_ok ?n \<and> nrb ?n \<noteq> 0"
      by (simp add: scenario_def lookup_ok_def band_ok_def bw_def nrb_def)
    have av: "avrbpdsch ?n = Inr (Fin (- 20 / 3))"
      by (simp add: scenario_def avrbpdsch_def py_div_def bw_def nrb_def)
    from C2_unserviceable [of ?n ?e] ok av
    have "poiddatareq ?n ?e ! 0 =
             (if fl_le (?e ! 0) (Fin (of_int (max_radius ?n)))
              then fl_div (Fin (dlthtarg ?n * 1024))
                     (fl_div (downlinkBitrate ?n (?e ! 0)) (Fin (- 20 / 3)))
              else PInf)"
      by auto
    then show ?thesis
      by (simp add: scenario_def downlinkBitrate_def fl_ge_def bw_def)
  qed
  moreover have "poiddatareq ?z ?e ! 0 = NaN"
  proof -
    have ok: "lookup_ok ?z \<and> nrb ?z \<noteq> 0"
      by (simp add: scenario_def lookup_ok_def band_ok_def bw_def nrb_def)
    have av: "avrbpdsch ?z = Inr (Fin 0)"
      by (simp add: scenario_def avrbpdsch_def py_div_def bw_def nrb_def)
    from C2_unserviceable [of ?z ?e] ok av
    have "poiddatareq ?z ?e ! 0 =
             (if fl_le (?e ! 0) (Fin (of_int (max_radius ?z)))
              then fl_div (Fin (dlthtarg ?z * 1024))
                     (fl_div (downlinkBitrate ?z (?e ! 0)) (Fin 0))
              else PInf)"
      by auto
    then show ?thesis
      by (simp add: scenario_def downlinkBitrate_def fl_ge_def bw_def)
  qed
  ultimately show ?thesis
    using len by simp
qed

section \<open>Scalars and arrays\<close>

text \<open>
  C3 (counterexample). \<open>upoprbu\<close> and \<open>cellavcap\<close> refuse an array of three values
  paired with a scalar (an array of size one) in the second position.
\<close>

theorem C3_counterexample:
  "upoprbu [Fin 1, Fin 2, Fin 3] [Fin 2] = Inl ValueError
   \<and> cellavcap [Fin 1, Fin 2, Fin 3] [Fin 2] = Inl ValueError"
  by (simp add: upoprbu_def cellavcap_def)

text \<open>
  C3 (amended). \<open>upoprbu\<close> and \<open>cellavcap\<close> raise the validation error exactly when the
  first argument is not of size one and the sizes differ; a first argument of size one is
  replicated over the second, and arrays of one size are combined element by element.
  \<open>sufcapch\<close> raises exactly when neither argument is of size one and the sizes differ;
  an argument of size one in either position is replicated over the other. The result has
  the length of the array.
\<close>

theorem C3_broadcast:
  "(upoprbu xs ys = Inl ValueError \<longleftrightarrow> length xs \<noteq> 1 \<and> length xs \<noteq> length ys)
   \<and> (length xs = 1 \<longrightarrow> upoprbu xs ys = Inr (map (fl_div (hd xs)) ys))
   \<and> (length xs = length ys \<longrightarrow> upoprbu xs ys = Inr (map2 fl_div xs ys))
   \<and> (cellavcap xs ys = Inl ValueError \<longleftrightarrow> length xs \<noteq> 1 \<and> length xs \<noteq> length ys)
   \<and> (length xs = 1 \<longrightarrow> cellavcap xs ys = Inr (map (fl_sub (hd xs)) ys))
   \<and> (length xs = length ys \<longrightarrow> cellavcap xs ys = Inr (map2 fl_sub xs ys))
   \<and> (sufcapch xs ys = Inl ValueError
         \<longleftrightarrow> length xs \<noteq> 1 \<and> length ys \<noteq> 1 \<and> length xs \<noteq> length ys)
   \<and> (length xs = 1 \<longrightarrow> sufcapch xs ys = Inr (map (fl_gt (hd xs)) ys))
   \<and> (length ys = 1 \<longrightarrow> sufcapch xs ys = Inr (map (\<lambda>x. fl_gt x (hd ys)) xs))
   \<and> (length xs = length ys \<longrightarrow> sufcapch xs ys = Inr (map2 fl_gt xs ys))"
proof -
  have u1: "upoprbu xs ys = Inl ValueError \<longleftrightarrow> length xs \<noteq> 1 \<and> length xs \<noteq> length ys"
    by (auto simp: upoprbu_def broadcast2_def)
  have c1: "cellavcap xs ys = Inl ValueError \<longleftrightarrow> length xs \<noteq> 1 \<and> length xs \<noteq> length ys"
    by (auto simp: cellavcap_def broadcast2_def)
  have s1: "sufcapch xs ys = Inl ValueError
         \<longleftrightarrow> length xs \<noteq> 1 \<and> length ys \<noteq> 1 \<and> length xs \<noteq> length ys"
    by (auto simp: sufcapch_def broadcast2_def)
  have u2: "length xs = 1 \<longrightarrow> upoprbu xs ys = Inr (map (fl_div (hd xs)) ys)"
    by (simp add: upoprbu_def broadcast2_scalar_left)
  have u3: "length xs = length ys \<longrightarrow> upoprbu xs ys = Inr (map2 fl_div xs ys)"
    by (simp add: upoprbu_def broadcast2_equal)
  have c2: "length xs = 1 \<longrightarrow> cellavcap xs ys = Inr (map (fl_sub (hd xs)) ys)"
    by (simp add: cellavcap_def broadcast2_scalar_left)
  have c3: "length xs = length ys \<longrightarrow> cellavcap xs ys = Inr (map2 fl_sub xs ys)"
    by (simp add: cellavcap_def broadcast2_equal)
  have s2: "length xs = 1 \<longrightarrow> sufcapch xs ys = Inr (map (fl_gt (hd xs)) ys)"
    by (simp add: sufcapch_def broadcast2_scalar_left)
  have s3: "length ys = 1 \<longrightarrow> sufcapch xs ys = Inr (map (\<lambda>x. fl_gt x (hd ys)) xs)"
    by (simp add: sufcapch_def broadcast2_scalar_right)
  have s4: "length xs = length ys \<longrightarrow> sufcapch xs ys = Inr (map2 fl_gt xs ys)"
    by (simp add: sufcapch_def broadcast2_equal)
  from u1 u2 u3 c1 c2 c3 s1 s2 s3 s4 show ?thesis by blast
qed

theorem C3_broadcast_witness:
  "upoprbu [Fin 6] [Fin 2, Fin 3] = Inr [Fin 3, Fin 2]
   \<and> cellavcap [Fin 60] [Fin 20, Fin 70] = Inr [Fin 40, Fin (- 10)]
   \<and> sufcapch [Fin 5] [Fin 2, Fin 7] = Inr [True, False]
   \<and> sufcapch [Fin 2, Fin 7] [Fin 5] = Inr [False, True]
   \<and> sufcapch [Fin 1, Fin 2, Fin 3] [Fin 2, Fin 7] = Inl ValueError
   \<and> upoprbu [Fin 6, Fin 8] [Fin 2] = Inl ValueError"
  using C3_broadcast [of "[Fin 6]" "[Fin 2, Fin 3]"]
    C3_broadcast [of "[Fin 60]" "[Fin 20, Fin 70]"]
    C3_broadcast [of "[Fin 5]" "[Fin 2, Fin 7]"]
    C3_broadcast [of "[Fin 2, Fin 7]" "[Fin 5]"]
    C3_broadcast [of "[Fin 1, Fin 2, Fin 3]" "[Fin 2, Fin 7]"]
    C3_broadcast [of "[Fin 6, Fin 8]" "[Fin 2]"]
  by (simp add: fl_sub_def fl_gt_def)


section \<open>Undefined bitrates in the weighted sum\<close>

text \<open>
  C4. When \<open>get_dl_bitrate\<close> returns, then at every queried distance at which one of the
  three bands yields not-a-number the weighted sum is not-a-number: the band is not
  replaced by zero and the other weights are not renormalised.
\<close>

theorem C4_undefined_propagates:
  assumes "get_dl_bitrate c ds = Inr r" and "i < length ds"
    and "band_dl_bitrate (bwdistance_km c b) (bwdlachievbr c b)
           (map (\<lambda>d. fl_div d (Fin 1000)) ds) = Inr col"
    and "col ! i = NaN"
  shows "r ! i = NaN"
proof -
  have r: "r ! i = downlinkBitrate c (ds ! i)"
    using get_dl_bitrate_Inr [OF assms(1)] assms(2) by simp
  have "bitrateAtDistance (bwdistance_km c b) (bwdlachievbr c b) (fl_div (ds ! i) (Fin 1000))
          = NaN"
    using band_dl_bitrate_Inr [OF assms(3)] assms(2,4) by simp
  then show ?thesis
    unfolding r downlinkBitrate_def Let_def by (cases b) simp_all
qed

theorem C4_undefined_propagates_witness:
  "get_dl_bitrate (scenario 500 20000 500) [Fin 1500, Fin 2500] = Inr [Fin (29000 / 3), NaN]"
proof -
  let ?c = "scenario 500 20000 500" and ?ds = "[Fin 1500, Fin 2500]"
  have g: "get_dl_bitrate ?c ?ds = Inr (map (downlinkBitrate ?c) ?ds)"
    using scenario_ok by (intro get_dl_bitrate_total) simp
  have b: "band_dl_bitrate (bwdistance_km ?c L2600) (bwdlachievbr ?c L2600)
             (map (\<lambda>d. fl_div d (Fin 1000)) ?ds) = Inr [Fin 1000, NaN]"
    by (simp add: scenario_def band_dl_bitrate_unfold fl_ge_def argmax_bool_def)
  have "map (downlinkBitrate ?c) ?ds ! 1 = NaN"
    by (rule C4_undefined_propagates [OF g _ b]) simp_all
  moreover have "downlinkBitrate ?c (Fin 1500) = Fin (29000 / 3)"
    by (simp add: scenario_def downlinkBitrate_def fl_ge_def bw_def)
  ultimately show ?thesis using g by simp
qed

section \<open>The first breakpoint at or beyond the distance\<close>

text \<open>
  C5. For a band whose table has a breakpoint, and a bitrate for every breakpoint, the
  lookup returns one value for each queried distance: the bitrate at the least index whose
  breakpoint is greater than or equal to the distance, and not-a-number when no breakpoint
  is. This is \<open>bitrateAtDistance\<close> of the specification, applied to every distance.
\<close>

theorem C5_first_breakpoint:
  assumes "ts \<noteq> []" and "length ts \<le> length bs"
  shows "\<exists>r. band_dl_bitrate ts bs ds = Inr r \<and> length r = length ds
     \<and> r = map (bitrateAtDistance ts bs) ds
     \<and> (\<forall>i<length ds.
          (\<forall>k<length ts. fl_ge (ts ! k) (ds ! i) \<and> (\<forall>j<k. \<not> fl_ge (ts ! j) (ds ! i))
             \<longrightarrow> r ! i = bs ! k)
          \<and> ((\<forall>j<length ts. \<not> fl_ge (ts ! j) (ds ! i)) \<longrightarrow> r ! i = NaN))"
proof (intro exI conjI allI impI)
  show "band_dl_bitrate ts bs ds = Inr (map (bitrateAtDistance ts bs) ds)"
    using assms by (rule band_dl_bitrate_total)
  show "length (map (bitrateAtDistance ts bs) ds) = length ds" by simp
  show "map (bitrateAtDistance ts bs) ds = map (bitrateAtDistance ts bs) ds" ..
next
  fix i k
  assume i: "i < length ds" and k: "k < length ts"
    and h: "fl_ge (ts ! k) (ds ! i) \<and> (\<forall>j<k. \<not> fl_ge (ts ! j) (ds ! i))"
  from k assms(2) have "k < length bs" by simp
  with k h have "bitrateAtDistance ts bs (ds ! i) = bs ! k"
    by (intro bitrateAtDistance_first) simp_all
  with i show "map (bitrateAtDistance ts bs) ds ! i = bs ! k" by simp
next
  fix i
  assume i: "i < length ds" and "\<forall>j<length ts. \<not> fl_ge (ts ! j) (ds ! i)"
  then have "bitrateAtDistance ts bs (ds ! i) = NaN" by (intro bitrateAtDistance_none)
  with i show "map (bitrateAtDistance ts bs) ds ! i = NaN" by simp
qed

theorem C5_first_breakpoint_witness:
  "band_dl_bitrate [Fin 1, Fin 3, Fin 6] [Fin 15000, Fin 8000, Fin 3000]
     [Fin (1 / 2), Fin 1, Fin (3 / 2), Fin 6, Fin 7]
   = Inr [Fin 15000, Fin 15000, Fin 8000, Fin 3000, NaN]"
proof -
  from C5_first_breakpoint [of "[Fin 1, Fin 3, Fin 6]" "[Fin 15000, Fin 8000, Fin 3000]"
      "[Fin (1 / 2), Fin 1, Fin (3 / 2), Fin 6, Fin 7]"]
  obtain r where "band_dl_bitrate [Fin 1, Fin 3, Fin 6] [Fin 15000, Fin 8000, Fin 3000]
     [Fin (1 / 2), Fin 1, Fin (3 / 2), Fin 6, Fin 7] = Inr r"
    and "r = map (bitrateAtDistance [Fin 1, Fin 3, Fin 6] [Fin 15000, Fin 8000, Fin 3000])
       [Fin (1 / 2), Fin 1, Fin (3 / 2), Fin 6, Fin 7]"
    by auto
  then show ?thesis by (simp add: fl_ge_def)
qed

section \<open>Monotonicity in the distance\<close>

text \<open>
  C6. For one band whose breakpoints ascend and whose bitrates do not increase, and two
  distances \<open>k1 \<le> k2\<close> (in kilometres) within the table's range, the lookup returns a
  bitrate for \<open>k1\<close> that is at least the one for \<open>k2\<close>. Consequently, when all three
  bands have such tables with finite bitrates and no band has a negative share of the
  bandwidth, \<open>get_dl_bitrate\<close> returns for two distances \<open>d1 \<le> d2\<close> (in metres)
  within the range of every table a weighted sum for \<open>d1\<close> that is at least the one
  for \<open>d2\<close>.
\<close>

theorem C6_monotone:
  "(ascending ts \<and> non_increasing bs \<and> ts \<noteq> [] \<and> length ts \<le> length bs
      \<and> fl_le k1 k2 \<and> fl_le k2 (last ts) \<longrightarrow>
      (\<exists>b1 b2. band_dl_bitrate ts bs [k1, k2] = Inr [b1, b2] \<and> fl_ge b1 b2))
   \<and> (lookup_ok c \<and> band_monotone c L850 \<and> band_monotone c L1800 \<and> band_monotone c L2600
      \<and> weights_nonneg c \<and> fl_le d1 d2
      \<and> within_range c L850 d2 \<and> within_range c L1800 d2 \<and> within_range c L2600 d2 \<longrightarrow>
      (\<exists>r1 r2. get_dl_bitrate c [d1, d2] = Inr [r1, r2] \<and> fl_ge r1 r2))"
proof (intro conjI impI)
  assume h: "ascending ts \<and> non_increasing bs \<and> ts \<noteq> [] \<and> length ts \<le> length bs
      \<and> fl_le k1 k2 \<and> fl_le k2 (last ts)"
  then have "band_dl_bitrate ts bs [k1, k2] = Inr (map (bitrateAtDistance ts bs) [k1, k2])"
    by (intro band_dl_bitrate_total) simp_all
  moreover have "fl_ge (bitrateAtDistance ts bs k1) (bitrateAtDistance ts bs k2)"
    using h by (intro bitrateAtDistance_mono) simp_all
  ultimately show "\<exists>b1 b2. band_dl_bitrate ts bs [k1, k2] = Inr [b1, b2] \<and> fl_ge b1 b2"
    by simp
next
  assume h: "lookup_ok c \<and> band_monotone c L850 \<and> band_monotone c L1800 \<and> band_monotone c L2600
      \<and> weights_nonneg c \<and> fl_le d1 d2
      \<and> within_range c L850 d2 \<and> within_range c L1800 d2 \<and> within_range c L2600 d2"
  then have "get_dl_bitrate c [d1, d2] = Inr (map (downlinkBitrate c) [d1, d2])"
    by (intro get_dl_bitrate_total) simp
  moreover have "fl_ge (downlinkBitrate c d1) (downlinkBitrate c d2)"
    using h by (intro downlinkBitrate_mono) simp_all
  ultimately show "\<exists>r1 r2. get_dl_bitrate c [d1, d2] = Inr [r1, r2] \<and> fl_ge r1 r2"
    by simp
qed

theorem C6_monotone_witness:
  "band_dl_bitrate [Fin 1, Fin 3, Fin 6] [Fin 15000, Fin 8000, Fin 3000] [Fin (1 / 2), Fin 2]
     = Inr [Fin 15000, Fin 8000]
   \<and> get_dl_bitrate (scenario 500 2000 500) [Fin 400, Fin 1500]
     = Inr [Fin 15000, Fin (29000 / 3)]
   \<and> fl_ge (Fin 15000) (Fin 8000) \<and> fl_ge (Fin 15000) (Fin (29000 / 3))"
proof -
  let ?c = "scenario 500 2000 500"
  from C6_monotone [of "[Fin 1, Fin 3, Fin 6]" "[Fin 15000, Fin 8000, Fin 3000]"
      "Fin (1 / 2)" "Fin 2" ?c "Fin 400" "Fin 1500"]
    scenario_ok [of 500 2000 500] scenario_monotone [of 500 2000 500]
  obtain b1 b2 r1 r2 where
    b: "band_dl_bitrate [Fin 1, Fin 3, Fin 6] [Fin 15000, Fin 8000, Fin 3000]
          [Fin (1 / 2), Fin 2] = Inr [b1, b2]" "fl_ge b1 b2"
    and r: "get_dl_bitrate ?c [Fin 400, Fin 1500] = Inr [r1, r2]" "fl_ge r1 r2"
    by (auto simp: ascending_def non_increasing_def fl_ge_def within_range_def scenario_def)
  from b(1) have "b1 = Fin 15000 \<and> b2 = Fin 8000"
    by (simp add: band_dl_bitrate_unfold fl_ge_def argmax_bool_def)
  moreover from r(1) get_dl_bitrate_Inr [OF r(1)]
  have "r1 = Fin 15000 \<and> r2 = Fin (29000 / 3)"
    by (simp add: downlinkBitrate_def scenario_def fl_ge_def bw_def)
  ultimately show ?thesis using b r by simp
qed

section \<open>Ring records\<close>



section \<open>Points without a site\<close>

text \<open>
  C8. Whenever \<open>calculate_buffer_areas\<close> returns, every point whose site identifier is
  missing has the available capacity 0 and fails the sufficiency check.
\<close>

theorem C8_unassigned_insufficient:
  assumes "calculate_buffer_areas c cellsites pois visibility containing oracle cellsites_rbu calls
             = Inr (rings, out, calls')"
    and "r \<in> set out" and "ict_id r = None"
  shows "col_cellavcap r = Fin 0 \<and> \<not> col_sufcapch r"
proof -
  from calculate_buffer_areas_Inr [OF assms(1)] obtain rows where
    va: "visibility_analysis containing oracle visibility pois calls = Inr (rows, calls')"
    and m: "merge_poi_and_cell_site c cellsites_rbu rows = Inr out"
    by blast
  from merge_poi_and_cell_site_rows [of c cellsites_rbu rows] m
  have len: "length out = length rows"
    and f: "\<forall>k<length rows.
          row_poi (out ! k) = row_poi (rows ! k) \<and> ict_id (out ! k) = ict_id (rows ! k)
          \<and> ground_distance (out ! k) = ground_distance (rows ! k)
          \<and> is_visible (out ! k) = is_visible (rows ! k)
          \<and> rbdlthtarg (out ! k) = poiddatareq c (map ground_distance rows) ! k
          \<and> (ict_id (rows ! k) = None \<longrightarrow> col_cellavcap (out ! k) = Fin 0)
          \<and> col_sufcapch (out ! k) = fl_gt (col_cellavcap (out ! k)) (rbdlthtarg (out ! k))"
    by auto
  from assms(2) len obtain k where k: "k < length rows" and r: "r = out ! k"
    by (auto simp: in_set_conv_nth)
  from f k r assms(3) have none: "ict_id (rows ! k) = None" by simp
  with f k r have cap: "col_cellavcap r = Fin 0" by simp
  from k have "rows ! k \<in> set rows" by simp
  from unassigned_distance [OF va this none] have "map ground_distance rows ! k = NaN"
    using k by simp
  with poiddatareq_undefined [of k "map ground_distance rows" c] k
  have "poiddatareq c (map ground_distance rows) ! k = PInf
      \<or> poiddatareq c (map ground_distance rows) ! k = NaN" by simp
  with f k r have "rbdlthtarg r = PInf \<or> rbdlthtarg r = NaN" by simp
  moreover from f k r have "col_sufcapch r = fl_gt (col_cellavcap r) (rbdlthtarg r)" by simp
  ultimately have "\<not> col_sufcapch r" using cap by (auto simp: fl_gt_def)
  with cap show ?thesis by simp
qed

theorem C8_unassigned_insufficient_witness:
  "ict_id (demo_out_live ! 1) = None \<and> col_cellavcap (demo_out_live ! 1) = Fin 0
   \<and> \<not> col_sufcapch (demo_out_live ! 1)
   \<and> (\<exists>rings. calculate_buffer_areas (scenario 500 2000 500) [7, 8] demo_pois None
          demo_containing demo_oracle demo_rbu [] = Inr (rings, demo_out_live, [(1, 7), (3, 8)]))"
proof -
  from demo_live obtain rings where
    d: "calculate_buffer_areas (scenario 500 2000 500) [7, 8] demo_pois None
          demo_containing demo_oracle demo_rbu [] = Inr (rings, demo_out_live, [(1, 7), (3, 8)])" ..
  have m: "demo_out_live ! 1 \<in> set demo_out_live" by (simp add: demo_out_live_def)
  have n: "ict_id (demo_out_live ! 1) = None" by (simp add: demo_out_live_def)
  from C8_unassigned_insufficient [OF d m n] n d show ?thesis by blast
qed


section \<open>The two visibility modes\<close>

text \<open>
  C9. With a precomputed table, the record of oracle invocations is unchanged; the result
  is the one obtained from the table's rows of order 1 alone, under any oracle and any
  geometry; and every returned point either carries the site, distance and flag of a row
  of order 1 with its identifier, or has no such row and no site. Without a table, the
  oracle is invoked once for every point with a site, in order, and for no other; such a
  point carries the oracle's answer and a point without a site carries none.
\<close>

theorem C9_visibility_modes:
  "(\<forall>tbl. visibility = Some tbl
        \<and> calculate_buffer_areas c cellsites pois visibility containing oracle cellsites_rbu calls
            = Inr (rings, out, calls') \<longrightarrow>
       calls' = calls
       \<and> calculate_buffer_areas c cellsites pois (Some (filter (\<lambda>v. vp_order v = 1) tbl))
            containing2 oracle2 cellsites_rbu calls = Inr (rings, out, calls)
       \<and> (\<forall>r \<in> set out. case ict_id r of
             None \<Rightarrow> \<not> (\<exists>v \<in> set tbl. vp_order v = 1 \<and> vp_poi_id v = poi_id (row_poi r))
           | Some s \<Rightarrow> (\<exists>v \<in> set tbl. vp_order v = 1 \<and> vp_poi_id v = poi_id (row_poi r)
                         \<and> s = vp_ict_id v \<and> ground_distance r = vp_ground_distance v
                         \<and> is_visible r = Some (vp_is_visible v))))
   \<and> (visibility = None
        \<and> calculate_buffer_areas c cellsites pois visibility containing oracle cellsites_rbu calls
            = Inr (rings, out, calls') \<longrightarrow>
       calls' = calls @ oracle_calls_of out
       \<and> (\<forall>r \<in> set out. case ict_id r of
             None \<Rightarrow> ground_distance r = NaN \<and> is_visible r = None
           | Some s \<Rightarrow> ground_distance r = fst (oracle (poi_id (row_poi r)) s)
                       \<and> is_visible r = Some (snd (oracle (poi_id (row_poi r)) s))))"
proof (rule conjI; intro allI impI)
  fix tbl
  let ?P = "\<lambda>v. vp_order v = 1"
  assume h: "visibility = Some tbl
        \<and> calculate_buffer_areas c cellsites pois visibility containing oracle cellsites_rbu calls
            = Inr (rings, out, calls')"
  with calculate_buffer_areas_Inr obtain rows where
    gr: "generate_rings c cellsites = Inr rings"
    and va: "visibility_analysis containing oracle (Some tbl) pois calls = Inr (rows, calls')"
    and m: "merge_poi_and_cell_site c cellsites_rbu rows = Inr out"
    by blast
  from va have rows: "rows = merge_left pois (filter ?P tbl)" and c: "calls' = calls"
    by (simp_all add: visibility_analysis_def Let_def)
  have va2: "visibility_analysis containing2 oracle2 (Some (filter ?P tbl)) pois calls
      = Inr (rows, calls)"
    by (simp add: visibility_analysis_def Let_def rows)
  have same: "calculate_buffer_areas c cellsites pois (Some (filter ?P tbl))
            containing2 oracle2 cellsites_rbu calls = Inr (rings, out, calls)"
    unfolding calculate_buffer_areas_def gr va2 sum.case prod.case m by simp
  have each: "\<forall>r \<in> set out. case ict_id r of
             None \<Rightarrow> \<not> (\<exists>v \<in> set tbl. vp_order v = 1 \<and> vp_poi_id v = poi_id (row_poi r))
           | Some s \<Rightarrow> (\<exists>v \<in> set tbl. vp_order v = 1 \<and> vp_poi_id v = poi_id (row_poi r)
                         \<and> s = vp_ict_id v \<and> ground_distance r = vp_ground_distance v
                         \<and> is_visible r = Some (vp_is_visible v))"
  proof
    fix r assume "r \<in> set out"
    from merge_fields [OF m this] obtain k where k: "k < length rows"
      and e: "row_poi r = row_poi (rows ! k)" "ict_id r = ict_id (rows ! k)"
        "ground_distance r = ground_distance (rows ! k)" "is_visible r = is_visible (rows ! k)"
      by blast
    from k have "rows ! k \<in> set (merge_left pois (filter ?P tbl))" unfolding rows by simp
    from merge_left_rows [OF this] show "case ict_id r of
             None \<Rightarrow> \<not> (\<exists>v \<in> set tbl. vp_order v = 1 \<and> vp_poi_id v = poi_id (row_poi r))
           | Some s \<Rightarrow> (\<exists>v \<in> set tbl. vp_order v = 1 \<and> vp_poi_id v = poi_id (row_poi r)
                         \<and> s = vp_ict_id v \<and> ground_distance r = vp_ground_distance v
                         \<and> is_visible r = Some (vp_is_visible v))"
      unfolding e by (auto split: option.splits)
  qed
  from c same each show "calls' = calls
       \<and> calculate_buffer_areas c cellsites pois (Some (filter ?P tbl))
            containing2 oracle2 cellsites_rbu calls = Inr (rings, out, calls)
       \<and> (\<forall>r \<in> set out. case ict_id r of
             None \<Rightarrow> \<not> (\<exists>v \<in> set tbl. vp_order v = 1 \<and> vp_poi_id v = poi_id (row_poi r))
           | Some s \<Rightarrow> (\<exists>v \<in> set tbl. vp_order v = 1 \<and> vp_poi_id v = poi_id (row_poi r)
                         \<and> s = vp_ict_id v \<and> ground_distance r = vp_ground_distance v
                         \<and> is_visible r = Some (vp_is_visible v)))"
    by blast
next
  assume h: "visibility = None
        \<and> calculate_buffer_areas c cellsites pois visibility containing oracle cellsites_rbu calls
            = Inr (rings, out, calls')"
  with calculate_buffer_areas_Inr obtain rows where
    va: "visibility_analysis containing oracle None pois calls = Inr (rows, calls')"
    and m: "merge_poi_and_cell_site c cellsites_rbu rows = Inr out"
    by blast
  from va obtain rows0 where av: "apply_visibility oracle rows0 calls = (rows, calls')"
    by (auto simp: visibility_analysis_def Let_def split: if_splits)
  from merge_poi_and_cell_site_rows [of c cellsites_rbu rows] m
  have "length out = length rows"
    and "\<forall>k<length rows. row_poi (out ! k) = row_poi (rows ! k)
            \<and> ict_id (out ! k) = ict_id (rows ! k)"
    by auto
  then have "oracle_calls_of out = oracle_calls_of rows" by (rule oracle_calls_of_cong)
  with apply_visibility_calls [OF av] have c: "calls' = calls @ oracle_calls_of out" by simp
  have each: "\<forall>r \<in> set out. case ict_id r of
             None \<Rightarrow> ground_distance r = NaN \<and> is_visible r = None
           | Some s \<Rightarrow> ground_distance r = fst (oracle (poi_id (row_poi r)) s)
                       \<and> is_visible r = Some (snd (oracle (poi_id (row_poi r)) s))"
  proof
    fix r assume "r \<in> set out"
    from merge_fields [OF m this] obtain k where k: "k < length rows"
      and e: "row_poi r = row_poi (rows ! k)" "ict_id r = ict_id (rows ! k)"
        "ground_distance r = ground_distance (rows ! k)" "is_visible r = is_visible (rows ! k)"
      by blast
    from k have "rows ! k \<in> set rows" by simp
    from apply_visibility_rows [OF av this] show "case ict_id r of
             None \<Rightarrow> ground_distance r = NaN \<and> is_visible r = None
           | Some s \<Rightarrow> ground_distance r = fst (oracle (poi_id (row_poi r)) s)
                       \<and> is_visible r = Some (snd (oracle (poi_id (row_poi r)) s))"
      unfolding e .
  qed
  from c each show "calls' = calls @ oracle_calls_of out
       \<and> (\<forall>r \<in> set out. case ict_id r of
             None \<Rightarrow> ground_distance r = NaN \<and> is_visible r = None
           | Some s \<Rightarrow> ground_distance r = fst (oracle (poi_id (row_poi r)) s)
                       \<and> is_visible r = Some (snd (oracle (poi_id (row_poi r)) s)))"
    by blast
qed

theorem C9_visibility_modes_witness:
  "(\<exists>rings. calculate_buffer_areas (scenario 500 2000 500) [7, 8] demo_pois
        (Some demo_visibility) demo_containing demo_oracle demo_rbu []
          = Inr (rings, demo_out_pre, [])
      \<and> calculate_buffer_areas (scenario 500 2000 500) [7, 8] demo_pois
        (Some (filter (\<lambda>v. vp_order v = 1) demo_visibility)) (\<lambda>p. []) (\<lambda>p s. (NaN, False))
        demo_rbu [] = Inr (rings, demo_out_pre, []))
   \<and> (\<exists>rings. calculate_buffer_areas (scenario 500 2000 500) [7, 8] demo_pois None
          demo_containing demo_oracle demo_rbu [] = Inr (rings, demo_out_live, [(1, 7), (3, 8)]))
   \<and> oracle_calls_of demo_out_live = [(1, 7), (3, 8)]"
proof -
  from demo_pre obtain rings where
    p: "calculate_buffer_areas (scenario 500 2000 500) [7, 8] demo_pois
        (Some demo_visibility) demo_containing demo_oracle demo_rbu []
          = Inr (rings, demo_out_pre, [])" ..
  from C9_visibility_modes [of "Some demo_visibility" "scenario 500 2000 500" "[7, 8]" demo_pois
      demo_containing demo_oracle demo_rbu "[]" rings demo_out_pre "[]"
      "\<lambda>p. []" "\<lambda>p s. (NaN, False)"] p
  have p2: "calculate_buffer_areas (scenario 500 2000 500) [7, 8] demo_pois
        (Some (filter (\<lambda>v. vp_order v = 1) demo_visibility)) (\<lambda>p. []) (\<lambda>p s. (NaN, False))
        demo_rbu [] = Inr (rings, demo_out_pre, [])"
    by simp
  from demo_live obtain rings' where
    d: "calculate_buffer_areas (scenario 500 2000 500) [7, 8] demo_pois None
          demo_containing demo_oracle demo_rbu [] = Inr (rings', demo_out_live, [(1, 7), (3, 8)])" ..
  from C9_visibility_modes [of None "scenario 500 2000 500" "[7, 8]" demo_pois
      demo_containing demo_oracle demo_rbu "[]" rings' demo_out_live "[(1, 7), (3, 8)]"] d
  have c: "oracle_calls_of demo_out_live = [(1, 7), (3, 8)]"
    by simp
  from p p2 d c show ?thesis by blast
qed

section \<open>Undefined distances\<close>

text \<open>
  C10 (counterexample). With \<open>rb_num_multiplier = 0\<close> the number of resource blocks is
  zero, the division in \<open>avrbpdsch\<close> raises, \<open>poiddatareq\<close> catches the exception and
  returns not-a-number at every position: a distance that is not-a-number then gets
  not-a-number, not positive infinity.
\<close>

theorem C10_counterexample:
  "avrbpdsch ((scenario 500 2000 500)\<lparr>rb_num_multiplier := 0\<rparr>) = Inl ZeroDivisionError
   \<and> poiddatareq ((scenario 500 2000 500)\<lparr>rb_num_multiplier := 0\<rparr>) [NaN] = [NaN]"
  by (simp add: scenario_def get_dl_bitrate_def weights_def py_div_def bw_def
      band_dl_bitrate_def fl_ge_def argmax_bool_def dot_def nrb_def avrbpdsch_def
      poiddatareq_def Let_def)

text \<open>
  C10 (amended). When the lookup raises nothing (total bandwidth and number of resource
  blocks other than zero, every band's table with a breakpoint and a bitrate for every
  breakpoint), a position of \<open>poiddatareq\<close> whose distance is not-a-number holds positive
  infinity. When the lookup or \<open>avrbpdsch\<close> raises, \<open>poiddatareq\<close> returns not-a-number at
  every position. When the lookup raises nothing and \<open>calculate_buffer_areas\<close> returns,
  every returned point without a site has an undefined ground distance and an infinite
  requirement of resource blocks, and every input point that the visibility stage leaves
  without a site is returned as such a point.
\<close>

theorem C10_undefined_distance:
  "(lookup_ok c \<and> nrb c \<noteq> 0 \<and> i < length d \<and> d ! i = NaN \<longrightarrow> poiddatareq c d ! i = PInf)
   \<and> ((\<exists>e. get_dl_bitrate c d = Inl e) \<or> (\<exists>e. avrbpdsch c = Inl e)
        \<longrightarrow> poiddatareq c d = replicate (length d) NaN)
   \<and> (lookup_ok c \<and> nrb c \<noteq> 0
       \<and> calculate_buffer_areas c cellsites pois visibility containing oracle cellsites_rbu calls
            = Inr (rings, out, calls')
       \<longrightarrow> (\<forall>r \<in> set out. ict_id r = None \<longrightarrow> ground_distance r = NaN \<and> rbdlthtarg r = PInf)
         \<and> (\<forall>p \<in> set pois. unassigned visibility containing pois p \<longrightarrow>
               (\<exists>r \<in> set out. poi_id (row_poi r) = poi_id p \<and> ict_id r = None
                   \<and> ground_distance r = NaN \<and> rbdlthtarg r = PInf)))"
proof (intro conjI)
  show "lookup_ok c \<and> nrb c \<noteq> 0 \<and> i < length d \<and> d ! i = NaN \<longrightarrow> poiddatareq c d ! i = PInf"
    by (simp add: poiddatareq_nan_position)
  show "(\<exists>e. get_dl_bitrate c d = Inl e) \<or> (\<exists>e. avrbpdsch c = Inl e)
        \<longrightarrow> poiddatareq c d = replicate (length d) NaN"
    using poiddatareq_raised by blast
  show "lookup_ok c \<and> nrb c \<noteq> 0
       \<and> calculate_buffer_areas c cellsites pois visibility containing oracle cellsites_rbu calls
            = Inr (rings, out, calls')
       \<longrightarrow> (\<forall>r \<in> set out. ict_id r = None \<longrightarrow> ground_distance r = NaN \<and> rbdlthtarg r = PInf)
         \<and> (\<forall>p \<in> set pois. unassigned visibility containing pois p \<longrightarrow>
               (\<exists>r \<in> set out. poi_id (row_poi r) = poi_id p \<and> ict_id r = None
                   \<and> ground_distance r = NaN \<and> rbdlthtarg r = PInf))"
  proof
    assume h: "lookup_ok c \<and> nrb c \<noteq> 0
       \<and> calculate_buffer_areas c cellsites pois visibility containing oracle cellsites_rbu calls
            = Inr (rings, out, calls')"
    then have ok: "lookup_ok c" "nrb c \<noteq> 0" by simp_all
    from h calculate_buffer_areas_Inr obtain rows where
      va: "visibility_analysis containing oracle visibility pois calls = Inr (rows, calls')"
      and m: "merge_poi_and_cell_site c cellsites_rbu rows = Inr out"
      by blast
    note res = unassigned_result [OF ok va m]
    have every: "\<forall>r \<in> set out. ict_id r = None \<longrightarrow> ground_distance r = NaN \<and> rbdlthtarg r = PInf"
    proof (intro ballI impI)
      fix r assume "r \<in> set out" and none: "ict_id r = None"
      from merge_fields [OF m this(1)] obtain k where k: "k < length rows" and r: "r = out ! k"
        and "ict_id r = ict_id (rows ! k)" by blast
      with none have "ict_id (rows ! k) = None" by simp
      from res [OF k this] r show "ground_distance r = NaN \<and> rbdlthtarg r = PInf" by simp
    qed
    have some: "\<forall>p \<in> set pois. unassigned visibility containing pois p \<longrightarrow>
               (\<exists>r \<in> set out. poi_id (row_poi r) = poi_id p \<and> ict_id r = None
                   \<and> ground_distance r = NaN \<and> rbdlthtarg r = PInf)"
    proof (intro ballI impI)
      fix p assume "p \<in> set pois" and "unassigned visibility containing pois p"
      from unassigned_row [OF va this] obtain row where "row \<in> set rows"
        and id: "poi_id (row_poi row) = poi_id p" and none: "ict_id row = None" by blast
      then obtain k where k: "k < length rows" and row: "row = rows ! k"
        by (auto simp: in_set_conv_nth)
      from none row have "ict_id (rows ! k) = None" by simp
      from res [OF k this] row id
      have "out ! k \<in> set out" and "poi_id (row_poi (out ! k)) = poi_id p \<and> ict_id (out ! k) = None
                   \<and> ground_distance (out ! k) = NaN \<and> rbdlthtarg (out ! k) = PInf"
        by simp_all
      then show "\<exists>r \<in> set out. poi_id (row_poi r) = poi_id p \<and> ict_id r = None
                   \<and> ground_distance r = NaN \<and> rbdlthtarg r = PInf"
        by (rule rev_bexI)
    qed
    from every some show "(\<forall>r \<in> set out. ict_id r = None \<longrightarrow> ground_distance r = NaN \<and> rbdlthtarg r = PInf)
         \<and> (\<forall>p \<in> set pois. unassigned visibility containing pois p \<longrightarrow>
               (\<exists>r \<in> set out. poi_id (row_poi r) = poi_id p \<and> ict_id r = None
                   \<and> ground_distance r = NaN \<and> rbdlthtarg r = PInf))" ..
  qed
qed

theorem C10_undefined_distance_witness:
  "poiddatareq (scenario 500 2000 500) [Fin 1500, NaN] ! 1 = PInf
   \<and> avrbpdsch ((scenario 500 2000 500)\<lparr>rb_num_multiplier := 0\<rparr>) = Inl ZeroDivisionError
   \<and> poiddatareq ((scenario 500 2000 500)\<lparr>rb_num_multiplier := 0\<rparr>) [Fin 1500, NaN]
        = [NaN, NaN]
   \<and> (\<exists>rings. calculate_buffer_areas (scenario 500 2000 500) [7, 8] demo_pois None
          demo_containing demo_oracle demo_rbu [] = Inr (rings, demo_out_live, [(1, 7), (3, 8)]))
   \<and> (\<exists>r. r \<in> set demo_out_live \<and> poi_id (row_poi r) = 2 \<and> ict_id r = None
          \<and> ground_distance r = NaN \<and> rbdlthtarg r = PInf)
   \<and> (\<exists>rings. calculate_buffer_areas (scenario 500 2000 500) [7, 8] demo_pois
          (Some demo_visibility) demo_containing demo_oracle demo_rbu []
            = Inr (rings, demo_out_pre, []))
   \<and> (\<exists>r. r \<in> set demo_out_pre \<and> poi_id (row_poi r) = 2 \<and> ict_id r = None
          \<and> ground_distance r = NaN \<and> rbdlthtarg r = PInf)"
proof -
  let ?c = "scenario 500 2000 500"
  let ?z = "(scenario 500 2000 500)\<lparr>rb_num_multiplier := 0\<rparr>"
  let ?p = "\<lparr>poi_id = 2, lat = 11, lon = 21\<rparr>"
  note ok = scenario_ok [of 500 2000 500]
  from demo_live obtain rings where
    d: "calculate_buffer_areas ?c [7, 8] demo_pois None
          demo_containing demo_oracle demo_rbu [] = Inr (rings, demo_out_live, [(1, 7), (3, 8)])" ..
  from demo_pre obtain rings' where
    e: "calculate_buffer_areas ?c [7, 8] demo_pois (Some demo_visibility)
          demo_containing demo_oracle demo_rbu [] = Inr (rings', demo_out_pre, [])" ..
  have p: "?p \<in> set demo_pois" by (simp add: demo_pois_def)
  have u1: "unassigned None demo_containing demo_pois ?p"
    by (simp add: unassigned_def demo_pois_def demo_containing_def)
  have u2: "unassigned (Some demo_visibility) demo_containing demo_pois ?p"
    by (simp add: unassigned_def demo_visibility_def)
  have z: "avrbpdsch ?z = Inl ZeroDivisionError"
    by (simp add: avrbpdsch_def py_div_def nrb_def scenario_def)
  from C10_undefined_distance [of ?c 1 "[Fin 1500, NaN]" "[7, 8]" demo_pois
      None demo_containing demo_oracle demo_rbu "[]" rings demo_out_live "[(1, 7), (3, 8)]"]
    ok d p u1
  have 1: "poiddatareq ?c [Fin 1500, NaN] ! 1 = PInf"
    and 2: "\<exists>r. r \<in> set demo_out_live \<and> poi_id (row_poi r) = 2 \<and> ict_id r = None
          \<and> ground_distance r = NaN \<and> rbdlthtarg r = PInf"
    by (simp, force)
  from C10_undefined_distance [of ?c 1 "[Fin 1500, NaN]" "[7, 8]" demo_pois
      "Some demo_visibility" demo_containing demo_oracle demo_rbu "[]" rings' demo_out_pre "[]"]
    ok e p u2
  have 3: "\<exists>r. r \<in> set demo_out_pre \<and> poi_id (row_poi r) = 2 \<and> ict_id r = None
          \<and> ground_distance r = NaN \<and> rbdlthtarg r = PInf"
    by force
  from C10_undefined_distance [of ?z _ "[Fin 1500, NaN]"] z
  have 4: "poiddatareq ?z [Fin 1500, NaN] = [NaN, NaN]"
    by (simp add: numeral_2_eq_2)
  from 1 2 3 4 z d e show ?thesis by blast
qed

end
